theory Spec2Isabelle
  imports Main "HOL-Library.Sublist" "HOL-Library.Multiset" "HOL-Library.Char_ord"
    "HOL-Library.List_Lexorder"
begin

section \<open>Strings\<close>

text \<open>
  A JavaScript string is modelled as a \<^typ>\<open>string\<close>: a list of code units, each below
  256 (the Latin-1 part of UTF-16). \<open>startsWith\<close> is \<^const>\<open>prefix\<close>, template literals
  are \<open>@\<close>.
\<close>

definition is_space :: "char \<Rightarrow> bool" where
  \<comment> \<open>the white space and line terminators of \<open>String.prototype.trim\<close> below 256\<close>
  "is_space c = (c \<in> set [CHR 0x09, CHR 0x0A, CHR 0x0B, CHR 0x0C, CHR 0x0D, CHR 0x20, CHR 0xA0])"

definition trim :: "string \<Rightarrow> string" where
  "trim s = rev (dropWhile is_space (rev (dropWhile is_space s)))"

definition to_lower_char :: "char \<Rightarrow> char" where
  \<comment> \<open>case mapping of the ASCII letters; the code compares the mapped strings with ASCII
      literals only, and no other code unit below 256 maps to an ASCII one\<close>
  "to_lower_char c =
     (case map_of (zip ''ABCDEFGHIJKLMNOPQRSTUVWXYZ'' ''abcdefghijklmnopqrstuvwxyz'') c of
        None \<Rightarrow> c | Some l \<Rightarrow> l)"

definition toLowerCase :: "string \<Rightarrow> string" where
  "toLowerCase s = map to_lower_char s"

definition to_upper_char :: "char \<Rightarrow> char" where
  "to_upper_char c =
     (case map_of (zip ''abcdefghijklmnopqrstuvwxyz'' ''ABCDEFGHIJKLMNOPQRSTUVWXYZ'') c of
        None \<Rightarrow> c | Some u \<Rightarrow> u)"

definition toUpperCase :: "string \<Rightarrow> string" where
  "toUpperCase s = map to_upper_char s"

fun includes_str :: "string \<Rightarrow> string \<Rightarrow> bool" where
  \<comment> \<open>\<open>s.includes(pat)\<close>\<close>
  "includes_str [] pat = (pat = [])"
| "includes_str (x # xs) pat = (prefix pat (x # xs) \<or> includes_str xs pat)"

fun split_on :: "char \<Rightarrow> string \<Rightarrow> string list" where
  \<comment> \<open>\<open>s.split(c)\<close> for a one-character separator; the empty string gives one empty piece\<close>
  "split_on c [] = [[]]"
| "split_on c (x # xs) =
     (if x = c then [] # split_on c xs
      else (case split_on c xs of
              [] \<Rightarrow> [[x]]
            | p # ps \<Rightarrow> (x # p) # ps))"

fun join_with :: "string \<Rightarrow> string list \<Rightarrow> string" where
  \<comment> \<open>\<open>parts.join(sep)\<close>\<close>
  "join_with sep [] = []"
| "join_with sep [p] = p"
| "join_with sep (p # q # ps) = p @ sep @ join_with sep (q # ps)"

definition digit_char :: "nat \<Rightarrow> char" where
  "digit_char d = ''0123456789'' ! d"

fun show_nat :: "nat \<Rightarrow> string" where
  \<comment> \<open>decimal rendering of a non-negative integer in a template literal\<close>
  "show_nat n = (if n < 10 then [digit_char n] else show_nat (n div 10) @ [digit_char (n mod 10)])"

declare show_nat.simps [simp del]

fun replace_first :: "string \<Rightarrow> string \<Rightarrow> string \<Rightarrow> string" where
  \<comment> \<open>\<open>s.replace(pat, rep)\<close> with a string pattern: the first occurrence only\<close>
  "replace_first pat rep [] = (if pat = [] then rep else [])"
| "replace_first pat rep (c # cs) =
     (if prefix pat (c # cs) then rep @ drop (length pat) (c # cs)
      else c # replace_first pat rep cs)"

definition is_digit :: "char \<Rightarrow> bool" where
  "is_digit c = (c \<in> set ''0123456789'')"

definition digit_val :: "char \<Rightarrow> nat" where
  "digit_val c = length (takeWhile (\<lambda>d. d \<noteq> c) ''0123456789abcdef'')"

definition is_hex_digit :: "char \<Rightarrow> bool" where
  "is_hex_digit c = (to_lower_char c \<in> set ''0123456789abcdef'')"

definition digits_value :: "nat \<Rightarrow> string \<Rightarrow> nat" where
  "digits_value radix ds = foldl (\<lambda>acc d. acc * radix + digit_val (to_lower_char d)) 0 ds"

definition parseInt :: "string \<Rightarrow> int option" where
  \<comment> \<open>\<open>parseInt(s)\<close>: white space, a sign, \<open>0x\<close> for radix 16, then the longest run of
      digits; \<open>None\<close> is \<open>NaN\<close>. Numbers are exact here, where the runtime rounds beyond 2^53\<close>
  "parseInt s =
     (let t = dropWhile is_space s;
          neg = (t \<noteq> [] \<and> hd t = CHR ''-'');
          u = (if t \<noteq> [] \<and> (hd t = CHR ''-'' \<or> hd t = CHR ''+'') then tl t else t);
          hex = (prefix ''0x'' u \<or> prefix ''0X'' u);
          ds = (if hex then takeWhile is_hex_digit (drop 2 u) else takeWhile is_digit u);
          v = int (digits_value (if hex then 16 else 10) ds)
      in if ds = [] then None else Some (if neg then - v else v))"

definition hex2 :: "nat \<Rightarrow> string" where
  "hex2 n = [''0123456789abcdef'' ! (n div 16), ''0123456789abcdef'' ! (n mod 16)]"

definition json_char :: "char \<Rightarrow> string" where
  "json_char c =
     (if c = CHR 0x22 then [CHR 0x5C, CHR 0x22]
      else if c = CHR 0x5C then [CHR 0x5C, CHR 0x5C]
      else if c = CHR 0x08 then [CHR 0x5C, CHR ''b'']
      else if c = CHR 0x0C then [CHR 0x5C, CHR ''f'']
      else if c = CHR 0x0A then [CHR 0x5C, CHR ''n'']
      else if c = CHR 0x0D then [CHR 0x5C, CHR ''r'']
      else if c = CHR 0x09 then [CHR 0x5C, CHR ''t'']
      else if (of_char c :: nat) < 32 then [CHR 0x5C, CHR ''u'', CHR ''0'', CHR ''0''] @ hex2 (of_char c)
      else [c])"

definition json_stringify :: "string \<Rightarrow> string" where
  \<comment> \<open>\<open>JSON.stringify(s)\<close> of a string\<close>
  "json_stringify s = [CHR 0x22] @ concat (map json_char s) @ [CHR 0x22]"

section \<open>POSIX paths (\<open>path\<close> module)\<close>

text \<open>
  The handlers call \<open>path.resolve\<close>, \<open>path.join\<close>, \<open>path.extname\<close>, \<open>path.basename\<close>,
  \<open>path.dirname\<close> and \<open>path.relative\<close> of the runtime's POSIX \<open>path\<close> module. The
  definitions below follow that module's algorithms: a path is cut at \<open>/\<close>, empty and
  \<open>.\<close> segments are dropped, \<open>..\<close> removes the segment before it.
\<close>

fun norm_step :: "bool \<Rightarrow> string list \<Rightarrow> string \<Rightarrow> string list" where
  \<comment> \<open>one segment of \<open>normalizeString\<close>; the accumulator holds the kept segments, last first\<close>
  "norm_step allowAboveRoot acc seg =
     (if seg = [] \<or> seg = ''.'' then acc
      else if seg = ''..'' then
        (case acc of
           [] \<Rightarrow> if allowAboveRoot then [''..''] else []
         | a # as \<Rightarrow> if a = ''..'' then (if allowAboveRoot then ''..'' # acc else acc) else as)
      else seg # acc)"

definition normalize_segments :: "bool \<Rightarrow> string \<Rightarrow> string list" where
  "normalize_segments allowAboveRoot p = rev (foldl (norm_step allowAboveRoot) [] (split_on CHR ''/'' p))"

definition normalizeString :: "bool \<Rightarrow> string \<Rightarrow> string" where
  "normalizeString allowAboveRoot p = join_with ''/'' (normalize_segments allowAboveRoot p)"

definition isAbsolute :: "string \<Rightarrow> bool" where
  "isAbsolute p = (p \<noteq> [] \<and> hd p = CHR ''/'')"

definition path_resolve :: "string \<Rightarrow> string \<Rightarrow> string \<Rightarrow> string" where
  \<comment> \<open>\<open>path.resolve(a, b)\<close> in a process whose working directory is \<open>cwd\<close> (an absolute path):
      the arguments are taken from the right until an absolute one is met\<close>
  "path_resolve cwd a b =
     (let r0 = (if b = [] then [] else b @ ''/'');
          abs0 = isAbsolute b;
          r1 = (if abs0 \<or> a = [] then r0 else a @ ''/'' @ r0);
          abs1 = (abs0 \<or> isAbsolute a);
          r2 = (if abs1 \<or> cwd = [] then r1 else cwd @ ''/'' @ r1);
          abs2 = (abs1 \<or> isAbsolute cwd);
          n = normalizeString (\<not> abs2) r2
      in if abs2 then ''/'' @ n else if n \<noteq> [] then n else ''.'')"

definition path_normalize :: "string \<Rightarrow> string" where
  "path_normalize p =
     (if p = [] then ''.''
      else (let n = normalizeString (\<not> isAbsolute p) p;
                trailing = (last p = CHR ''/'')
            in if n = [] then (if isAbsolute p then ''/'' else if trailing then ''./'' else ''.'')
               else (if isAbsolute p then ''/'' else []) @ n @ (if trailing then ''/'' else [])))"

definition path_join :: "string \<Rightarrow> string \<Rightarrow> string" where
  \<comment> \<open>\<open>path.join(a, b)\<close>\<close>
  "path_join a b =
     (let joined = (if a = [] then b else if b = [] then a else a @ ''/'' @ b)
      in if joined = [] then ''.'' else path_normalize joined)"

definition last_component :: "string \<Rightarrow> string" where
  \<comment> \<open>what follows the last separator, trailing separators set aside\<close>
  "last_component p =
     rev (takeWhile (\<lambda>c. c \<noteq> CHR ''/'') (dropWhile (\<lambda>c. c = CHR ''/'') (rev p)))"

definition path_extname :: "string \<Rightarrow> string" where
  \<comment> \<open>from the last dot of the last component on; empty when there is no dot, when the dot
      comes first, and for \<open>..\<close>\<close>
  "path_extname p =
     (let comp = last_component p;
          e = CHR ''.'' # rev (takeWhile (\<lambda>c. c \<noteq> CHR ''.'') (rev comp))
      in if CHR ''.'' \<notin> set comp \<or> comp = ''..'' \<or> length e = length comp then [] else e)"

definition path_basename :: "string \<Rightarrow> string \<Rightarrow> string" where
  \<comment> \<open>\<open>path.basename(p, ext)\<close>, for an \<open>ext\<close> that is empty or ends the last component, as
      the \<open>extname\<close> of the same path does\<close>
  "path_basename p ext =
     (let comp = last_component p
      in if ext \<noteq> [] \<and> ext = p then []
         else if ext \<noteq> [] \<and> suffix ext comp \<and> comp \<noteq> ext then take (length comp - length ext) comp
         else comp)"

definition path_dirname :: "string \<Rightarrow> string" where
  "path_dirname p =
     (if p = [] then ''.''
      else (let r = dropWhile (\<lambda>c. c \<noteq> CHR ''/'') (dropWhile (\<lambda>c. c = CHR ''/'') (rev (tl p)));
                end = length r
            in if r = [] then (if isAbsolute p then ''/'' else ''.'')
               else if isAbsolute p \<and> end = 1 then ''//''
               else take end p))"

fun drop_common :: "string list \<Rightarrow> string list \<Rightarrow> string list \<times> string list" where
  "drop_common (x # xs) (y # ys) = (if x = y then drop_common xs ys else (x # xs, y # ys))"
| "drop_common xs ys = (xs, ys)"

definition path_relative :: "string \<Rightarrow> string \<Rightarrow> string \<Rightarrow> string" where
  \<comment> \<open>\<open>path.relative(from, to)\<close>: both are resolved, their common leading segments dropped,
      one \<open>..\<close> written for each segment left of \<open>from\<close>, then what is left of \<open>to\<close>\<close>
  "path_relative cwd from to =
     (let (f, t) = drop_common (normalize_segments False (path_resolve cwd [] from))
                               (normalize_segments False (path_resolve cwd [] to))
      in join_with ''/'' (replicate (length f) ''..'' @ t))"

section \<open>Path sandbox\<close>

definition resolveSafePath :: "string \<Rightarrow> string \<Rightarrow> string \<Rightarrow> string option" where
  \<comment> \<open>\<open>ROOT_DIR\<close> and the working directory are read from the process environment\<close>
  "resolveSafePath ROOT_DIR cwd requestedPath =
     (let resolved = path_resolve cwd ROOT_DIR requestedPath
      in if \<not> prefix ROOT_DIR resolved then None else Some resolved)"

definition inside_root :: "string \<Rightarrow> string \<Rightarrow> bool" where
  \<comment> \<open>the path is the root itself or the root followed by a separator and more\<close>
  "inside_root ROOT_DIR p = (p = ROOT_DIR \<or> prefix (ROOT_DIR @ ''/'') p)"

section \<open>Configuration and requests\<close>

record environment =
  \<comment> \<open>the variables of \<open>process.env\<close> the server reads; an unset variable is the empty string,
      as \<open>process.env.X || ""\<close> makes it\<close>
  FILE_EXPLORER_API_TOKEN :: string
  FILE_EXPLORER_ADMIN_TOKEN :: string
  FILE_EXPLORER_READ_TOKEN :: string

record config =
  ADMIN_API_TOKEN :: string
  READ_API_TOKEN :: string

definition load_config :: "environment \<Rightarrow> config" where
  "load_config env =
     (let LEGACY_API_TOKEN = trim (FILE_EXPLORER_API_TOKEN env)
      in \<lparr> ADMIN_API_TOKEN =
              trim (if FILE_EXPLORER_ADMIN_TOKEN env \<noteq> [] then FILE_EXPLORER_ADMIN_TOKEN env
                    else LEGACY_API_TOKEN),
            READ_API_TOKEN = trim (FILE_EXPLORER_READ_TOKEN env) \<rparr>)"

definition AUTH_ENABLED :: "config \<Rightarrow> bool" where
  "AUTH_ENABLED cfg = (ADMIN_API_TOKEN cfg \<noteq> [] \<or> READ_API_TOKEN cfg \<noteq> [])"

record request =
  \<comment> \<open>what the handlers read of the context \<open>c\<close>: method, path name, the \<open>deviceId\<close> or \<open>id\<close>
      route parameter, the headers by lower-case name, the query parameters in order, and
      the string fields of the JSON body (\<open>None\<close> when the body is not JSON)\<close>
  req_method :: string
  req_path :: string
  req_param :: string
  req_headers :: "string \<rightharpoonup> string"
  req_query :: "(string \<times> string) list"
  req_json :: "(string \<rightharpoonup> string) option"

definition header :: "request \<Rightarrow> string \<Rightarrow> string" where
  \<comment> \<open>\<open>c.req.header(name) || ""\<close>\<close>
  "header c name = (case req_headers c name of None \<Rightarrow> [] | Some v \<Rightarrow> v)"

definition searchParam :: "request \<Rightarrow> string \<Rightarrow> string" where
  \<comment> \<open>\<open>searchParams.get(name) || ""\<close>: the first value of that name\<close>
  "searchParam c name = (case map_of (req_query c) name of None \<Rightarrow> [] | Some v \<Rightarrow> v)"

section \<open>Tokens and roles\<close>

definition normalizeBearer :: "string \<Rightarrow> string" where
  "normalizeBearer token = (if prefix ''Bearer '' token then token else ''Bearer '' @ token)"

definition getTokenFromRequest :: "request \<Rightarrow> string option" where
  "getTokenFromRequest c =
     (let authHeader = trim (header c ''authorization'')
      in if prefix ''bearer '' (toLowerCase authHeader) then
           (let token = trim (drop 7 authHeader) in if token \<noteq> [] then Some token else None)
         else
           (let customHeader = trim (header c ''x-file-explorer-token'')
            in if customHeader \<noteq> [] then Some customHeader
               else
                 (let urlToken = trim (searchParam c ''token'')
                  in if urlToken \<noteq> [] then Some urlToken else None)))"

datatype role = Admin | Read

definition token_is :: "string option \<Rightarrow> string \<Rightarrow> bool" where
  \<comment> \<open>\<open>token && SECRET && token === SECRET\<close>\<close>
  "token_is token secret =
     (case token of None \<Rightarrow> False | Some t \<Rightarrow> t \<noteq> [] \<and> secret \<noteq> [] \<and> t = secret)"

definition getAuthRole :: "config \<Rightarrow> string option \<Rightarrow> role option" where
  "getAuthRole cfg token =
     (if \<not> AUTH_ENABLED cfg then Some Admin
      else if token_is token (ADMIN_API_TOKEN cfg) then Some Admin
      else if token_is token (READ_API_TOKEN cfg) then Some Read
      else None)"

definition getForwardAuthHeader :: "config \<Rightarrow> request \<Rightarrow> string option \<Rightarrow> string option" where
  \<comment> \<open>the optional argument \<open>explicitToken\<close> is \<open>None\<close> when it is \<open>undefined\<close>\<close>
  "getForwardAuthHeader cfg c explicitToken =
     (let token = trim (case explicitToken of None \<Rightarrow> [] | Some t \<Rightarrow> t)
      in if token \<noteq> [] then Some (normalizeBearer token)
         else (case getTokenFromRequest c of
                 Some incomingToken \<Rightarrow> Some (normalizeBearer incomingToken)
               | None \<Rightarrow>
                   if ADMIN_API_TOKEN cfg \<noteq> [] then Some (normalizeBearer (ADMIN_API_TOKEN cfg))
                   else None))"

section \<open>Auth gate\<close>

datatype gate = Next | Reject nat string

definition isWrite :: "string \<Rightarrow> bool" where
  "isWrite m = (let method = toUpperCase m
                in method \<noteq> ''GET'' \<and> method \<noteq> ''HEAD'' \<and> method \<noteq> ''OPTIONS'')"

definition auth_middleware :: "config \<Rightarrow> request \<Rightarrow> gate" where
  \<comment> \<open>the middleware registered on \<open>/api/*\<close>\<close>
  "auth_middleware cfg c =
     (if req_path c = ''/api/auth/status'' then Next
      else if \<not> AUTH_ENABLED cfg then Next
      else (case getAuthRole cfg (getTokenFromRequest c) of
              None \<Rightarrow> Reject 401 ''Unauthorized''
            | Some role \<Rightarrow>
                if isWrite (req_method c) \<and> role \<noteq> Admin
                then Reject 403 ''Admin token required for write operations''
                else Next))"

section \<open>File items and their order\<close>

record file_item =
  \<comment> \<open>an entry of a listing; \<open>fi_modified\<close> is the instant, in ms since the epoch, that the
      \<open>modified\<close> field renders with \<open>toISOString\<close>, \<open>None\<close> when the field is \<open>null\<close> or absent\<close>
  fi_name :: string
  fi_path :: string
  fi_isDirectory :: bool
  fi_icon :: string
  fi_size :: int
  fi_modified :: "int option"

record listing =
  l_path :: string
  l_breadcrumbs :: "(string \<times> string) list"
  l_files :: "file_item list"

record file_info =
  i_name :: string
  i_path :: string
  i_isDirectory :: bool
  i_size :: int
  i_created :: int
  i_modified :: int
  i_accessed :: int
  i_icon :: string

record runtime =
  \<comment> \<open>library functions the handlers call and this theory does not define: the collation
      of \<open>String.prototype.localeCompare\<close>, the ranking of Fuse.js, base64, and whether
      \<open>new URL\<close> accepts a string\<close>
  localeCompare :: "string \<Rightarrow> string \<Rightarrow> int"
  fuse_search :: "file_item list \<Rightarrow> string \<Rightarrow> file_item list"
  base64 :: "string \<Rightarrow> string"
  url_parses :: "string \<Rightarrow> bool"

definition getFileType :: "string \<Rightarrow> string" where
  "getFileType filename =
     (let ext = toLowerCase (path_extname filename)
      in if ext \<in> set [''.jpg'', ''.jpeg'', ''.png'', ''.gif'', ''.webp'', ''.svg'', ''.ico'', ''.bmp''] then ''image''
         else if ext \<in> set [''.mp4'', ''.webm'', ''.mov'', ''.avi'', ''.mkv''] then ''video''
         else if ext \<in> set [''.mp3'', ''.wav'', ''.ogg'', ''.flac'', ''.m4a''] then ''audio''
         else if ext \<in> set [''.js'', ''.ts'', ''.jsx'', ''.tsx'', ''.py'', ''.rb'', ''.go'', ''.rs'', ''.java'',
                   ''.c'', ''.cpp'', ''.h'', ''.css'', ''.scss'', ''.html'', ''.json'', ''.yaml'', ''.yml'',
                   ''.toml'', ''.md'', ''.sh'', ''.bash'', ''.zsh''] then ''code''
         else if ext \<in> set [''.pdf'', ''.doc'', ''.docx'', ''.xls'', ''.xlsx'', ''.ppt'', ''.pptx'', ''.txt''] then ''document''
         else if ext \<in> set [''.zip'', ''.tar'', ''.gz'', ''.rar'', ''.7z''] then ''archive''
         else ''file'')"

definition getFileIcon :: "string \<Rightarrow> bool \<Rightarrow> string" where
  "getFileIcon filename isDir = (if isDir then ''folder'' else getFileType filename)"

definition compare_items :: "runtime \<Rightarrow> file_item \<Rightarrow> file_item \<Rightarrow> int" where
  \<comment> \<open>the comparator both listings pass to \<open>sort\<close>\<close>
  "compare_items rt a b =
     (if fi_isDirectory a \<and> \<not> fi_isDirectory b then - 1
      else if \<not> fi_isDirectory a \<and> fi_isDirectory b then 1
      else localeCompare rt (fi_name a) (fi_name b))"

fun insert_by :: "('a \<Rightarrow> 'a \<Rightarrow> int) \<Rightarrow> 'a \<Rightarrow> 'a list \<Rightarrow> 'a list" where
  "insert_by cmp x [] = [x]"
| "insert_by cmp x (y # ys) = (if cmp x y \<le> 0 then x # y # ys else y # insert_by cmp x ys)"

definition js_sort :: "('a \<Rightarrow> 'a \<Rightarrow> int) \<Rightarrow> 'a list \<Rightarrow> 'a list" where
  \<comment> \<open>\<open>Array.prototype.sort(cmp)\<close>, a stable sort: an element goes before the first one
      it does not compare greater than, the later elements first\<close>
  "js_sort cmp xs = foldr (insert_by cmp) xs []"

definition crumbs :: "string \<Rightarrow> (string \<times> string) list" where
  \<comment> \<open>\<open>Home\<close>, then one crumb for each part of the relative path\<close>
  "crumbs p =
     (''Home'', []) #
     (if p = [] then []
      else (let parts = split_on CHR ''/'' p
            in map (\<lambda>i. (parts ! i, join_with ''/'' (take (Suc i) parts))) [0..<length parts]))"

definition lines_of :: "string \<Rightarrow> string list" where
  \<comment> \<open>\<open>out.trim().split("\n").filter(Boolean)\<close>\<close>
  "lines_of out = filter (\<lambda>l. l \<noteq> []) (split_on CHR 0x0A (trim out))"

definition INVALID_DATE :: string where
  \<comment> \<open>the message of the \<open>RangeError\<close> that \<open>toISOString\<close> throws for an invalid date\<close>
  "INVALID_DATE = ''Invalid time value''"

definition date_of_seconds :: "string \<Rightarrow> int option" where
  \<comment> \<open>\<open>new Date(parseInt(s) * 1000)\<close>, \<open>None\<close> when the date is invalid: not a number, or
      further than 8.64e15 ms from the epoch\<close>
  "date_of_seconds s =
     (case parseInt s of
        None \<Rightarrow> None
      | Some v \<Rightarrow> if \<bar>v * 1000\<bar> \<le> 8640000000000000 then Some (v * 1000) else None)"

fun collect :: "(string + 'a) list \<Rightarrow> string + 'a list" where
  \<comment> \<open>\<open>map\<close> with a callback that may throw: the first throw ends it\<close>
  "collect [] = Inr []"
| "collect (Inl e # rs) = Inl e"
| "collect (Inr x # rs) = (case collect rs of Inl e \<Rightarrow> Inl e | Inr xs \<Rightarrow> Inr (x # xs))"

section \<open>Device registry\<close>

record device =
  \<comment> \<open>\<open>DeviceConfig\<close>, an entry of \<open>devices.json\<close>; an optional field that is absent is \<open>None\<close>\<close>
  d_id :: string
  d_name :: string
  d_url :: string
  d_sshHost :: "string option"
  d_sshRoot :: "string option"
  d_authToken :: "string option"
  d_icon :: "string option"
  d_enabled :: bool

record public_device =
  \<comment> \<open>\<open>PublicDeviceConfig\<close>: \<open>DeviceConfig\<close> without \<open>authToken\<close>, with an optional
      \<open>hasAuthToken\<close>; the entry for this machine also has \<open>isLocal\<close>\<close>
  p_id :: string
  p_name :: string
  p_url :: string
  p_sshHost :: "string option"
  p_sshRoot :: "string option"
  p_icon :: "string option"
  p_enabled :: bool
  p_hasAuthToken :: "bool option"
  p_isLocal :: "bool option"

definition truthy :: "string option \<Rightarrow> bool" where
  \<comment> \<open>a string-valued field in a condition: present and not empty\<close>
  "truthy v = (case v of None \<Rightarrow> False | Some s \<Rightarrow> s \<noteq> [])"

definition or_else :: "string option \<Rightarrow> string \<Rightarrow> string" where
  \<comment> \<open>\<open>v || dflt\<close>\<close>
  "or_else v dflt = (case v of None \<Rightarrow> dflt | Some s \<Rightarrow> if s \<noteq> [] then s else dflt)"

definition toPublicDevice :: "device \<Rightarrow> public_device" where
  "toPublicDevice device =
     \<lparr> p_id = d_id device, p_name = d_name device, p_url = d_url device,
       p_sshHost = d_sshHost device, p_sshRoot = d_sshRoot device, p_icon = d_icon device,
       p_enabled = d_enabled device,
       p_hasAuthToken = Some (truthy (d_authToken device)), p_isLocal = None \<rparr>"

record settings =
  \<comment> \<open>the part of \<open>settings.json\<close> that names this machine\<close>
  localName :: "string option"
  localIcon :: "string option"

definition LOCAL_ICON :: string where
  \<comment> \<open>stands for the laptop emoji of the source, which has no code unit below 256\<close>
  "LOCAL_ICON = ''laptop''"

definition DEVICE_ICON :: string where
  \<comment> \<open>stands for the desktop-computer emoji of the source\<close>
  "DEVICE_ICON = ''desktop''"

definition getLocalName :: "settings \<Rightarrow> string option \<Rightarrow> string" where
  \<comment> \<open>\<open>hostname\<close> is what \<open>os.hostname()\<close> returns, \<open>None\<close> when it throws\<close>
  "getLocalName st hostname =
     (if truthy (localName st) then the (localName st)
      else (case hostname of
              None \<Rightarrow> ''This Machine''
            | Some h \<Rightarrow> if suffix ''.local'' h then take (length h - 6) h else h))"

definition getLocalIcon :: "settings \<Rightarrow> string" where
  "getLocalIcon st = or_else (localIcon st) LOCAL_ICON"

definition get_devices :: "settings \<Rightarrow> string option \<Rightarrow> device list \<Rightarrow> public_device list" where
  \<comment> \<open>\<open>GET /api/devices\<close>: the \<open>devices\<close> array of the response\<close>
  "get_devices st hostname devices =
     (let local = \<lparr> p_id = ''local'', p_name = getLocalName st hostname, p_url = [],
                     p_sshHost = None, p_sshRoot = None, p_icon = Some (getLocalIcon st),
                     p_enabled = True, p_hasAuthToken = None, p_isLocal = Some True \<rparr>
      in local # map toPublicDevice devices)"

subsection \<open>Device ids\<close>

definition is_slug_char :: "char \<Rightarrow> bool" where
  \<comment> \<open>the class \<open>[a-z0-9]\<close>\<close>
  "is_slug_char c = (c \<in> set ''abcdefghijklmnopqrstuvwxyz0123456789'')"

function hyphenate :: "string \<Rightarrow> string" where
  \<comment> \<open>\<open>.replace(/[^a-z0-9]+/g, "-")\<close>: each match is a longest run outside the class\<close>
  "hyphenate [] = []"
| "hyphenate (c # cs) =
     (if is_slug_char c then c # hyphenate cs
      else CHR ''-'' # hyphenate (dropWhile (\<lambda>x. \<not> is_slug_char x) cs))"
  by pat_completeness auto
termination
  by (relation "measure length") (auto simp: le_imp_less_Suc length_dropWhile_le)

definition strip_edge_hyphens :: "string \<Rightarrow> string" where
  \<comment> \<open>\<open>.replace(/(^-|-$)/g, "")\<close>: one hyphen at the start and one at the end\<close>
  "strip_edge_hyphens s =
     (let s1 = (case s of [] \<Rightarrow> [] | c # cs \<Rightarrow> if c = CHR ''-'' then cs else s)
      in if s1 \<noteq> [] \<and> last s1 = CHR ''-'' then butlast s1 else s1)"

definition slugify :: "string \<Rightarrow> string" where
  "slugify name = strip_edge_hyphens (hyphenate (toLowerCase name))"

definition derive_id :: "string \<Rightarrow> nat \<Rightarrow> string" where
  \<comment> \<open>\<open>slug || `device-${Date.now()}`\<close>\<close>
  "derive_id name now = (let slug = slugify name in if slug \<noteq> [] then slug else ''device-'' @ show_nat now)"

subsection \<open>The outside world\<close>

record ssh_result =
  stdout :: string
  stderr :: string
  code :: nat

record fetch_req =
  \<comment> \<open>an outbound \<open>fetch\<close>: the URL as written, the search parameters set on it afterwards,
      method, headers by lower-case name, time limit in ms; the request body, passed
      through unchanged, is not part of the model\<close>
  f_url :: string
  f_query :: "(string \<times> string) list"
  f_method :: string
  f_headers :: "string \<rightharpoonup> string"
  f_timeout :: nat

datatype fetch_result =
    FetchFailed string  \<comment> \<open>the promise rejects (network error, abort) with this message\<close>
  | FetchResponse nat string  \<comment> \<open>status and body of the remote response\<close>

datatype call =
    SshExec string string nat  \<comment> \<open>\<open>sshExec(host, command, timeoutMs)\<close> spawns \<open>ssh\<close>\<close>
  | SshExecBinary string string nat
  | Fetch fetch_req
  | CpSync string string  \<comment> \<open>\<open>fs.cpSync(src, dest, {recursive: true})\<close>\<close>
  | CopyFileSync string string

record world =
  \<comment> \<open>what the outside answers: the result of an \<open>ssh\<close> run, of a \<open>fetch\<close>, the clock\<close>
  ssh :: "string \<Rightarrow> string \<Rightarrow> nat \<Rightarrow> ssh_result"
  fetch :: "fetch_req \<Rightarrow> fetch_result"
  now :: nat

definition res_ok :: "nat \<Rightarrow> bool" where
  \<comment> \<open>\<open>Response.ok\<close>\<close>
  "res_ok st = (200 \<le> st \<and> st \<le> 299)"

datatype preview =
    ImagePreview string string  \<comment> \<open>MIME type, base64 content\<close>
  | TextPreview string string  \<comment> \<open>language, content\<close>
  | Unsupported string

datatype body =
    ErrorBody string
  | SuccessBody
  | SuccessDevice public_device
  | DevicesBody "public_device list"
  | HealthBody string
  | RawBody string  \<comment> \<open>a body that is not the server's JSON: a download, a proxied response\<close>
  | ListingBody listing
  | ResultsBody "file_item list"
  | FilesBody "file_item list"
  | PreviewBody preview
  | InfoBody file_info
  | SuccessPath string

record outcome =
  \<comment> \<open>what a handler does: the response, the array written to \<open>devices.json\<close> if it calls
      \<open>saveDevices\<close>, and its calls to the outside in order\<close>
  status :: nat
  body :: body
  saved :: "device list option"
  calls :: "call list"

definition respond :: "nat \<Rightarrow> body \<Rightarrow> outcome" where
  \<comment> \<open>a response with nothing saved and nothing called\<close>
  "respond st b = \<lparr> status = st, body = b, saved = None, calls = [] \<rparr>"

subsection \<open>Adding, updating and deleting\<close>

record add_body =
  \<comment> \<open>the JSON body of \<open>POST /api/devices\<close>, its fields strings when present\<close>
  b_name :: "string option"
  b_url :: "string option"
  b_icon :: "string option"
  b_sshHost :: "string option"
  b_sshRoot :: "string option"
  b_authToken :: "string option"

definition strip_trailing_slashes :: "string \<Rightarrow> string" where
  \<comment> \<open>\<open>.replace(/\/+$/, "")\<close>\<close>
  "strip_trailing_slashes s = rev (dropWhile (\<lambda>x. x = CHR ''/'') (rev s))"

definition probe_req :: "string \<Rightarrow> string option \<Rightarrow> fetch_req" where
  \<comment> \<open>the reachability probe \<open>fetch(`${base}/api/files?path=`, {headers: authHeader ?
      {Authorization: authHeader} : undefined})\<close>, with its time limit of 5 s\<close>
  "probe_req base authHeader =
     \<lparr> f_url = base @ ''/api/files?path='', f_query = [], f_method = ''GET'',
       f_headers = (case authHeader of None \<Rightarrow> Map.empty | Some h \<Rightarrow> [''authorization'' \<mapsto> h]),
       f_timeout = 5000 \<rparr>"

definition id_taken :: "string \<Rightarrow> device list \<Rightarrow> bool" where
  \<comment> \<open>\<open>id === "local" || devices.some((d) => d.id === id)\<close>\<close>
  "id_taken id' devices = (id' = ''local'' \<or> list_ex (\<lambda>d. d_id d = id') devices)"

definition post_devices_ssh :: "world \<Rightarrow> add_body \<Rightarrow> device list \<Rightarrow> outcome" where
  "post_devices_ssh w b devices =
     (let sshHost = or_else (b_sshHost b) [];
          deviceName = or_else (b_name b) sshHost;
          id' = derive_id deviceName (now w)
      in if id_taken id' devices then respond 409 (ErrorBody ''Device ID already exists'')
         else
           (let r = ssh w sshHost ''echo ok && echo $HOME'' 8000;
                cs = [SshExec sshHost ''echo ok && echo $HOME'' 8000]
            in if code r \<noteq> 0 \<or> \<not> includes_str (stdout r) ''ok'' then
                 \<lparr> status = 502,
                   body = ErrorBody (''Cannot SSH to '' @ [CHR 0x22] @ sshHost @ [CHR 0x22] @ '' - check your SSH config and keys''),
                   saved = None, calls = cs \<rparr>
               else
                 (let lastLine = last (split_on CHR 0x0A (trim (stdout r)));
                      remoteHome = (if lastLine \<noteq> [] then lastLine else ''/'');
                      device = \<lparr> d_id = id', d_name = deviceName, d_url = [],
                                 d_sshHost = Some sshHost,
                                 d_sshRoot = Some (or_else (b_sshRoot b) remoteHome),
                                 d_authToken = None,
                                 d_icon = Some (or_else (b_icon b) DEVICE_ICON),
                                 d_enabled = True \<rparr>
                  in \<lparr> status = 200, body = SuccessDevice (toPublicDevice device),
                       saved = Some (devices @ [device]), calls = cs \<rparr>)))"

definition post_devices_http :: "config \<Rightarrow> world \<Rightarrow> request \<Rightarrow> add_body \<Rightarrow> device list \<Rightarrow> outcome" where
  "post_devices_http cfg w c b devices =
     (let name = or_else (b_name b) [];
          url = or_else (b_url b) [];
          id' = derive_id name (now w)
      in if id_taken id' devices then respond 409 (ErrorBody ''Device ID already exists'')
         else
           (let cleanUrl = strip_trailing_slashes url;
                cleanToken = trim (or_else (b_authToken b) []);
                authHeader = getForwardAuthHeader cfg c (Some cleanToken);
                probe = probe_req cleanUrl authHeader
            in case fetch w probe of
                 FetchFailed msg \<Rightarrow>
                   \<lparr> status = 502,
                     body = ErrorBody (''Cannot reach '' @ url @ '': '' @ (if msg \<noteq> [] then msg else ''timeout'')),
                     saved = None, calls = [Fetch probe] \<rparr>
               | FetchResponse st _ \<Rightarrow>
                   if \<not> res_ok st then
                     \<lparr> status = 502, body = ErrorBody (''Remote returned '' @ show_nat st),
                       saved = None, calls = [Fetch probe] \<rparr>
                   else
                     (let device = \<lparr> d_id = id', d_name = name, d_url = cleanUrl,
                                     d_sshHost = None, d_sshRoot = None,
                                     d_authToken = (if cleanToken \<noteq> [] then Some cleanToken else None),
                                     d_icon = Some (or_else (b_icon b) DEVICE_ICON),
                                     d_enabled = True \<rparr>
                      in \<lparr> status = 200, body = SuccessDevice (toPublicDevice device),
                           saved = Some (devices @ [device]), calls = [Fetch probe] \<rparr>)))"

definition post_devices :: "config \<Rightarrow> world \<Rightarrow> request \<Rightarrow> add_body \<Rightarrow> device list \<Rightarrow> outcome" where
  \<comment> \<open>\<open>POST /api/devices\<close>; \<open>devices\<close> is what \<open>loadDevices()\<close> reads\<close>
  "post_devices cfg w c b devices =
     (if truthy (b_sshHost b) then post_devices_ssh w b devices
      else if \<not> truthy (b_name b) \<or> \<not> truthy (b_url b) then
        respond 400 (ErrorBody ''name and url (or sshHost) required'')
      else post_devices_http cfg w c b devices)"

record update_body =
  \<comment> \<open>the JSON body of \<open>PUT /api/devices/:id\<close>; \<open>None\<close> is a field that is \<open>undefined\<close>\<close>
  u_name :: "string option"
  u_url :: "string option"
  u_authToken :: "string option"
  u_icon :: "string option"
  u_enabled :: "bool option"

fun findIndex :: "('a \<Rightarrow> bool) \<Rightarrow> 'a list \<Rightarrow> nat option" where
  "findIndex P [] = None"
| "findIndex P (x # xs) = (if P x then Some 0 else map_option Suc (findIndex P xs))"

definition apply_update :: "update_body \<Rightarrow> device \<Rightarrow> device" where
  "apply_update u d =
     (let d1 = (case u_name u of None \<Rightarrow> d | Some n \<Rightarrow> d\<lparr>d_name := n\<rparr>);
          d2 = (case u_url u of None \<Rightarrow> d1 | Some v \<Rightarrow> d1\<lparr>d_url := strip_trailing_slashes v\<rparr>);
          d3 = (case u_authToken u of
                  None \<Rightarrow> d2
                | Some t \<Rightarrow> d2\<lparr>d_authToken := (if trim t \<noteq> [] then Some (trim t) else None)\<rparr>);
          d4 = (case u_icon u of None \<Rightarrow> d3 | Some i \<Rightarrow> d3\<lparr>d_icon := Some i\<rparr>)
      in (case u_enabled u of None \<Rightarrow> d4 | Some e \<Rightarrow> d4\<lparr>d_enabled := e\<rparr>))"

definition put_devices :: "string \<Rightarrow> update_body \<Rightarrow> device list \<Rightarrow> outcome" where
  \<comment> \<open>\<open>PUT /api/devices/:id\<close>\<close>
  "put_devices id' u devices =
     (if id' = ''local'' then respond 400 (ErrorBody ''Cannot edit local device'')
      else (case findIndex (\<lambda>d. d_id d = id') devices of
              None \<Rightarrow> respond 404 (ErrorBody ''Device not found'')
            | Some idx \<Rightarrow>
                (let devices' = devices[idx := apply_update u (devices ! idx)]
                 in \<lparr> status = 200, body = SuccessDevice (toPublicDevice (devices' ! idx)),
                      saved = Some devices', calls = [] \<rparr>)))"

definition delete_devices :: "string \<Rightarrow> device list \<Rightarrow> outcome" where
  \<comment> \<open>\<open>DELETE /api/devices/:id\<close>\<close>
  "delete_devices id' devices =
     (if id' = ''local'' then respond 400 (ErrorBody ''Cannot delete local device'')
      else (let filtered = filter (\<lambda>d. d_id d \<noteq> id') devices
            in if length filtered = length devices then respond 404 (ErrorBody ''Device not found'')
               else \<lparr> status = 200, body = SuccessBody, saved = Some filtered, calls = [] \<rparr>))"

definition health :: "config \<Rightarrow> world \<Rightarrow> request \<Rightarrow> string \<Rightarrow> device list \<Rightarrow> outcome" where
  \<comment> \<open>\<open>GET /api/devices/:id/health\<close>; the measured latency is not part of the model\<close>
  "health cfg w c id' devices =
     (if id' = ''local'' then respond 200 (HealthBody ''ok'')
      else (case find (\<lambda>d. d_id d = id') devices of
              None \<Rightarrow> respond 404 (ErrorBody ''Device not found'')
            | Some device \<Rightarrow>
                if truthy (d_sshHost device) then
                  (let host = the (d_sshHost device); r = ssh w host ''echo ok'' 5000
                   in \<lparr> status = 200,
                        body = HealthBody (if code r = 0 \<and> includes_str (stdout r) ''ok''
                                           then ''ok'' else ''unreachable''),
                        saved = None, calls = [SshExec host ''echo ok'' 5000] \<rparr>)
                else
                  (let authHeader = getForwardAuthHeader cfg c (d_authToken device);
                       probe = probe_req (d_url device) authHeader
                   in \<lparr> status = 200,
                        body = HealthBody (case fetch w probe of
                                             FetchFailed _ \<Rightarrow> ''unreachable''
                                           | FetchResponse st _ \<Rightarrow> if res_ok st then ''ok'' else ''error''),
                        saved = None, calls = [Fetch probe] \<rparr>)))"

subsection \<open>The registry as a state machine\<close>

definition add_name :: "add_body \<Rightarrow> string" where
  \<comment> \<open>the name an add request is filed under: \<open>name\<close>, or \<open>sshHost\<close> when no name is given\<close>
  "add_name b = or_else (b_name b) (or_else (b_sshHost b) [])"

definition persist :: "device list \<Rightarrow> outcome \<Rightarrow> device list" where
  \<comment> \<open>\<open>devices.json\<close> after a handler has run\<close>
  "persist devices out = (case saved out of None \<Rightarrow> devices | Some ds \<Rightarrow> ds)"

datatype registry_op =
    Add config world request add_body
  | Update string update_body
  | Delete string

fun run_op :: "device list \<Rightarrow> registry_op \<Rightarrow> device list" where
  "run_op devices (Add cfg w c b) = persist devices (post_devices cfg w c b devices)"
| "run_op devices (Update i u) = persist devices (put_devices i u devices)"
| "run_op devices (Delete i) = persist devices (delete_devices i devices)"

definition has_local :: "device list \<Rightarrow> bool" where
  "has_local devices = list_ex (\<lambda>d. d_id d = ''local'') devices"

definition ssh_probe_failed :: "world \<Rightarrow> add_body \<Rightarrow> bool" where
  \<comment> \<open>the connectivity test of an SSH add exits non-zero or prints no \<open>ok\<close>\<close>
  "ssh_probe_failed w b =
     (let r = ssh w (or_else (b_sshHost b) []) ''echo ok && echo $HOME'' 8000
      in code r \<noteq> 0 \<or> \<not> includes_str (stdout r) ''ok'')"

definition http_probe_failed :: "config \<Rightarrow> world \<Rightarrow> request \<Rightarrow> add_body \<Rightarrow> bool" where
  \<comment> \<open>the probe of an HTTP add is rejected or answered outside 200..299\<close>
  "http_probe_failed cfg w c b =
     (case fetch w (probe_req (strip_trailing_slashes (or_else (b_url b) []))
                      (getForwardAuthHeader cfg c (Some (trim (or_else (b_authToken b) []))))) of
        FetchFailed _ \<Rightarrow> True
      | FetchResponse st _ \<Rightarrow> \<not> res_ok st)"

subsection \<open>The slug in the words of the specification\<close>

fun collapse_runs :: "bool \<Rightarrow> string \<Rightarrow> string" where
  \<comment> \<open>every maximal run of characters outside \<open>[a-z0-9]\<close> becomes one hyphen; the flag says
      that the run's hyphen has been written already\<close>
  "collapse_runs in_run [] = []"
| "collapse_runs in_run (c # cs) =
     (if is_slug_char c then c # collapse_runs False cs
      else if in_run then collapse_runs True cs
      else CHR ''-'' # collapse_runs True cs)"

definition spec_slug :: "string \<Rightarrow> string" where
  \<comment> \<open>lowercased, runs replaced, all leading and trailing hyphens removed\<close>
  "spec_slug name =
     (let s = collapse_runs False (toLowerCase name)
      in rev (dropWhile (\<lambda>c. c = CHR ''-'') (rev (dropWhile (\<lambda>c. c = CHR ''-'') s))))"

section \<open>SSH adapter\<close>

definition dq :: string where "dq = [CHR 0x22]"
definition sq :: string where "sq = [CHR 0x27]"
definition nl :: string where "nl = [CHR 0x0A]"

definition ssh_item_of_line :: "string \<Rightarrow> string \<Rightarrow> string + file_item" where
  \<comment> \<open>the \<open>map\<close> callback of \<open>sshListFiles\<close> on one line \<open>type|name|size|mtime\<close>; with fewer
      than four fields \<open>mtimeStr\<close> is \<open>undefined\<close> and the date is invalid\<close>
  "ssh_item_of_line requestedPath line =
     (let fields = split_on CHR ''|'' line
      in if length fields < 4 then Inl INVALID_DATE
         else
           (let type = fields ! 0; name = fields ! 1; sizeStr = fields ! 2; mtimeStr = fields ! 3;
                isDir = (type = ''Directory'' \<or> type = ''directory'');
                size = (case parseInt sizeStr of None \<Rightarrow> 0 | Some v \<Rightarrow> v)
            in case date_of_seconds mtimeStr of
                 None \<Rightarrow> Inl INVALID_DATE
               | Some modified \<Rightarrow>
                   Inr \<lparr> fi_name = name,
                         fi_path = (if requestedPath \<noteq> [] then requestedPath @ ''/'' @ name else name),
                         fi_isDirectory = isDir,
                         fi_icon = (if isDir then ''folder'' else getFileType name),
                         fi_size = (if isDir then 0 else size),
                         fi_modified = Some modified \<rparr>))"

definition ssh_file_items :: "runtime \<Rightarrow> string \<Rightarrow> string \<Rightarrow> string + file_item list" where
  \<comment> \<open>the \<open>files\<close> of \<open>sshListFiles\<close> from the remote output\<close>
  "ssh_file_items rt requestedPath out =
     (case collect (map (ssh_item_of_line requestedPath) (lines_of out)) of
        Inl e \<Rightarrow> Inl e
      | Inr items \<Rightarrow> Inr (js_sort (compare_items rt) items))"

definition list_command :: "string \<Rightarrow> bool \<Rightarrow> string" where
  "list_command targetDir showHidden =
     ''cd '' @ json_stringify targetDir @ '' 2>/dev/null && ls -1 '' @ (if showHidden then ''-a'' else [])
     @ '' --color=never 2>/dev/null | while IFS= read -r name; do'' @ nl
     @ ''    [ '' @ dq @ ''$name'' @ dq @ '' = '' @ dq @ ''.'' @ dq @ '' ] || [ '' @ dq @ ''$name'' @ dq
     @ '' = '' @ dq @ ''..'' @ dq @ '' ] && continue'' @ nl
     @ ''    stat -f '' @ sq @ ''%HT|%N|%z|%m'' @ sq @ '' '' @ dq @ ''$name'' @ dq
     @ '' 2>/dev/null || stat --format='' @ sq @ ''%F|%n|%s|%Y'' @ sq @ '' '' @ dq @ ''$name'' @ dq
     @ '' 2>/dev/null'' @ nl @ ''  done''"

definition sshListFiles ::
  "runtime \<Rightarrow> world \<Rightarrow> string \<Rightarrow> string \<Rightarrow> string \<Rightarrow> bool \<Rightarrow> (string + listing) \<times> call list" where
  \<comment> \<open>the value returned or the message thrown, and the calls made\<close>
  "sshListFiles rt w host rootDir requestedPath showHidden =
     (let targetDir = (if requestedPath \<noteq> [] then rootDir @ ''/'' @ requestedPath else rootDir);
          cmd = list_command targetDir showHidden;
          r = ssh w host cmd 15000
      in (if code r \<noteq> 0 \<and> trim (stdout r) = [] then Inl ''Failed to list directory''
          else (case ssh_file_items rt requestedPath (stdout r) of
                  Inl e \<Rightarrow> Inl e
                | Inr files \<Rightarrow>
                    Inr \<lparr> l_path = requestedPath, l_breadcrumbs = crumbs requestedPath, l_files = files \<rparr>),
          [SshExec host cmd 15000]))"

definition sshSearch ::
  "runtime \<Rightarrow> world \<Rightarrow> string \<Rightarrow> string \<Rightarrow> string \<Rightarrow> string \<Rightarrow> file_item list \<times> call list" where
  "sshSearch rt w host rootDir searchPath query =
     (let targetDir = (if searchPath \<noteq> [] then rootDir @ ''/'' @ searchPath else rootDir);
          cmd = ''find '' @ json_stringify targetDir @ '' -maxdepth 5 -name '' @ sq @ ''*'' @ sq
                @ '' 2>/dev/null | head -500'';
          r = ssh w host cmd 15000;
          items = map (\<lambda>fullPath.
                    \<lparr> fi_name = path_basename fullPath [],
                      fi_path = (if prefix rootDir fullPath then drop (length rootDir + 1) fullPath
                                 else fullPath),
                      fi_isDirectory = False, fi_icon = getFileType (path_basename fullPath []),
                      fi_size = 0, fi_modified = None \<rparr>) (lines_of (stdout r))
      in (take 50 (fuse_search rt (filter (\<lambda>f. fi_name f \<noteq> [] \<and> \<not> prefix ''.'' (fi_name f)) items) query),
          [SshExec host cmd 15000]))"

definition image_mime :: "string \<Rightarrow> string" where
  "image_mime ext =
     (case map_of [(''.jpg'', ''image/jpeg''), (''.jpeg'', ''image/jpeg''), (''.png'', ''image/png''),
                   (''.gif'', ''image/gif''), (''.webp'', ''image/webp''), (''.svg'', ''image/svg+xml'')] ext of
        None \<Rightarrow> ''image/png'' | Some m \<Rightarrow> m)"

definition sshPreview ::
  "runtime \<Rightarrow> world \<Rightarrow> string \<Rightarrow> string \<Rightarrow> string \<Rightarrow> (string + preview) \<times> call list" where
  "sshPreview rt w host rootDir filePath =
     (let fullPath = rootDir @ ''/'' @ filePath;
          ext = toLowerCase (path_extname filePath);
          fileType = getFileType (path_basename filePath [])
      in if fileType = ''image'' then
           (let cmd = ''cat '' @ json_stringify fullPath; r = ssh w host cmd 30000
            in (if code r \<noteq> 0 then Inl ''Failed to read file''
                else Inr (ImagePreview (image_mime ext) (base64 rt (stdout r))),
                [SshExecBinary host cmd 30000]))
         else if fileType = ''code'' \<or> ext = ''.txt'' \<or> ext = ''.md'' then
           (let cmd = ''head -c 500000 '' @ json_stringify fullPath; r = ssh w host cmd 15000
            in (if code r \<noteq> 0 then Inl ''Failed to read file''
                else Inr (TextPreview (drop 1 ext) (stdout r)),
                [SshExec host cmd 15000]))
         else (Inr (Unsupported (''Preview not available for '' @ ext @ '' files'')), []))"

definition sshFileInfo ::
  "world \<Rightarrow> string \<Rightarrow> string \<Rightarrow> string \<Rightarrow> (string + file_info) \<times> call list" where
  "sshFileInfo w host rootDir filePath =
     (let fullPath = rootDir @ ''/'' @ filePath;
          name = path_basename filePath [];
          cmd = ''stat -f '' @ sq @ ''%z|%B|%m|%a|%HT'' @ sq @ '' '' @ json_stringify fullPath
                @ '' 2>/dev/null || stat --format='' @ sq @ ''%s|%W|%Y|%X|%F'' @ sq @ '' ''
                @ json_stringify fullPath @ '' 2>/dev/null'';
          r = ssh w host cmd 15000;
          fields = split_on CHR ''|'' (trim (stdout r));
          field = (\<lambda>i. if i < length fields then date_of_seconds (fields ! i) else None);
          isDir = (4 < length fields \<and> (fields ! 4 = ''Directory'' \<or> fields ! 4 = ''directory''))
      in (if code r \<noteq> 0 then Inl ''Failed to get info''
          else (case (field 1, field 2, field 3) of
                  (Some created, Some modified, Some accessed) \<Rightarrow>
                    Inr \<lparr> i_name = name, i_path = filePath, i_isDirectory = isDir,
                          i_size = (case parseInt (fields ! 0) of None \<Rightarrow> 0 | Some v \<Rightarrow> v),
                          i_created = created, i_modified = modified, i_accessed = accessed,
                          i_icon = (if isDir then ''folder'' else getFileType name) \<rparr>
                | _ \<Rightarrow> Inl INVALID_DATE),
          [SshExec host cmd 15000]))"

definition sshDownload :: "world \<Rightarrow> string \<Rightarrow> string \<Rightarrow> string \<Rightarrow> (string + string) \<times> call list" where
  "sshDownload w host rootDir filePath =
     (let cmd = ''cat '' @ json_stringify (rootDir @ ''/'' @ filePath); r = ssh w host cmd 30000
      in (if code r \<noteq> 0 then Inl ''Failed to download'' else Inr (stdout r),
          [SshExecBinary host cmd 30000]))"

section \<open>Device proxy\<close>

definition ssh_error :: "string \<Rightarrow> call list \<Rightarrow> outcome" where
  \<comment> \<open>the \<open>catch\<close> of the SSH branch\<close>
  "ssh_error msg cs = \<lparr> status = 502, body = ErrorBody (''SSH error: '' @ msg), saved = None, calls = cs \<rparr>"

definition answer :: "(string + 'a) \<times> call list \<Rightarrow> ('a \<Rightarrow> body) \<Rightarrow> outcome" where
  \<comment> \<open>\<open>c.json(data)\<close> of what an adapter function returns, its throw caught\<close>
  "answer r mk =
     (case fst r of
        Inl msg \<Rightarrow> ssh_error msg (snd r)
      | Inr v \<Rightarrow> \<lparr> status = 200, body = mk v, saved = None, calls = snd r \<rparr>)"

definition JSON_ERROR :: string where
  \<comment> \<open>the message of the error that \<open>c.req.json()\<close> throws on a body that is not JSON\<close>
  "JSON_ERROR = ''Unexpected end of JSON input''"

definition tmpl :: "string option \<Rightarrow> string" where
  \<comment> \<open>a body field inside a template literal\<close>
  "tmpl v = (case v of None \<Rightarrow> ''undefined'' | Some x \<Rightarrow> x)"

definition run_remote :: "world \<Rightarrow> string \<Rightarrow> string \<Rightarrow> string \<Rightarrow> outcome" where
  \<comment> \<open>one remote command of a write operation, answered by its exit code\<close>
  "run_remote w host cmd failure =
     (if code (ssh w host cmd 15000) = 0
      then \<lparr> status = 200, body = SuccessBody, saved = None, calls = [SshExec host cmd 15000] \<rparr>
      else \<lparr> status = 500, body = ErrorBody failure, saved = None, calls = [SshExec host cmd 15000] \<rparr>)"

definition ssh_duplicate_dest :: "string \<Rightarrow> string" where
  \<comment> \<open>the destination the SSH branch copies \<open>src\<close> to\<close>
  "ssh_duplicate_dest src =
     (let ext = path_extname src;
          base = path_basename src ext;
          dir = path_dirname src
      in dir @ ''/'' @ base @ '' copy'' @ ext)"

definition ssh_write :: "runtime \<Rightarrow> world \<Rightarrow> string \<Rightarrow> string \<Rightarrow> string \<Rightarrow> (string \<rightharpoonup> string) \<Rightarrow> outcome" where
  \<comment> \<open>the POST operations of the SSH branch, \<open>j\<close> the parsed body\<close>
  "ssh_write rt w host root suffix' j =
     (if suffix' = ''mkdir'' then
        run_remote w host (''mkdir -p '' @ json_stringify (root @ ''/'' @ tmpl (j ''path''))) ''Failed to create folder''
      else if suffix' = ''touch'' then
        (let filePath = root @ ''/'' @ tmpl (j ''path'')
         in run_remote w host
              (''mkdir -p '' @ json_stringify (path_dirname filePath) @ '' && cat > '' @ json_stringify filePath
               @ '' << '' @ sq @ ''SSHEOF'' @ sq @ nl @ or_else (j ''content'') [] @ nl @ ''SSHEOF'')
              ''Failed to create file'')
      else if suffix' = ''rename'' then
        run_remote w host
          (''mv '' @ json_stringify (root @ ''/'' @ tmpl (j ''from'')) @ '' ''
           @ json_stringify (root @ ''/'' @ tmpl (j ''to''))) ''Failed to rename''
      else if suffix' = ''delete'' then
        (let targetPath = root @ ''/'' @ tmpl (j ''path'')
         in if targetPath = root then respond 400 (ErrorBody ''Cannot delete root'')
            else run_remote w host (''rm -rf '' @ json_stringify targetPath) ''Failed to delete'')
      else if suffix' = ''save'' then
        run_remote w host
          (''echo '' @ sq @ base64 rt (or_else (j ''content'') []) @ sq @ '' | base64 -d > ''
           @ json_stringify (root @ ''/'' @ tmpl (j ''path''))) ''Failed to save''
      else
        (let src = root @ ''/'' @ tmpl (j ''path'')
         in run_remote w host
              (''cp -r '' @ json_stringify src @ '' '' @ json_stringify (ssh_duplicate_dest src))
              ''Failed to duplicate''))"

definition ssh_branch :: "runtime \<Rightarrow> world \<Rightarrow> request \<Rightarrow> device \<Rightarrow> outcome" where
  "ssh_branch rt w c device =
     (let host = or_else (d_sshHost device) [];
          root = or_else (d_sshRoot device) ''/'';
          suffix' = hd (split_on CHR ''?'' (replace_first (''/api/d/'' @ req_param c @ ''/'') [] (req_path c)));
          reqPath = searchParam c ''path'';
          get = (req_method c = ''GET'');
          post = (req_method c = ''POST'')
      in if suffix' = ''files'' \<and> get then
           answer (sshListFiles rt w host root reqPath (searchParam c ''showHidden'' = ''true'')) ListingBody
         else if suffix' = ''search'' \<and> get then
           (if length (searchParam c ''q'') < 2 then respond 200 (ResultsBody [])
            else (let r = sshSearch rt w host root reqPath (searchParam c ''q'')
                  in \<lparr> status = 200, body = ResultsBody (fst r), saved = None, calls = snd r \<rparr>))
         else if suffix' = ''preview'' \<and> get then
           (if reqPath = [] then respond 400 (ErrorBody ''path required'')
            else answer (sshPreview rt w host root reqPath) PreviewBody)
         else if suffix' = ''info'' \<and> get then
           (if reqPath = [] then respond 400 (ErrorBody ''path required'')
            else answer (sshFileInfo w host root reqPath) InfoBody)
         else if suffix' = ''download'' \<and> get then
           (if reqPath = [] then respond 400 (ErrorBody ''path required'')
            else answer (sshDownload w host root reqPath) RawBody)
         else if suffix' \<in> set [''mkdir'', ''touch'', ''rename'', ''delete'', ''save'', ''duplicate''] \<and> post then
           (case req_json c of
              None \<Rightarrow> ssh_error JSON_ERROR []
            | Some j \<Rightarrow> ssh_write rt w host root suffix' j)
         else if suffix' = ''recent'' then respond 200 (FilesBody [])
         else respond 400 (ErrorBody (''Unsupported SSH operation: '' @ suffix')))"

fun set_param :: "(string \<times> string) list \<Rightarrow> string \<times> string \<Rightarrow> (string \<times> string) list" where
  \<comment> \<open>\<open>searchParams.set(k, v)\<close>: the first entry of that name takes the value, the others
      go; a new name is appended\<close>
  "set_param [] kv = [kv]"
| "set_param ((k', v') # ps) kv =
     (if k' = fst kv then kv # filter (\<lambda>p. fst p \<noteq> fst kv) ps else (k', v') # set_param ps kv)"

definition proxy_request :: "config \<Rightarrow> request \<Rightarrow> device \<Rightarrow> fetch_req" where
  \<comment> \<open>what the HTTP branch fetches: the incoming headers without \<open>host\<close>, the resolved
      \<open>authorization\<close> set over them when there is one\<close>
  "proxy_request cfg c device =
     (let suffix' = replace_first (''/api/d/'' @ req_param c) [] (req_path c);
          proxyHeaders = (req_headers c)(''host'' := None);
          authHeader = getForwardAuthHeader cfg c (d_authToken device)
      in \<lparr> f_url = d_url device @ ''/api'' @ suffix',
           f_query = foldl set_param [] (req_query c),
           f_method = req_method c,
           f_headers = (case authHeader of None \<Rightarrow> proxyHeaders
                        | Some h \<Rightarrow> proxyHeaders(''authorization'' \<mapsto> h)),
           f_timeout = 30000 \<rparr>)"

definition http_branch :: "config \<Rightarrow> runtime \<Rightarrow> world \<Rightarrow> request \<Rightarrow> device \<Rightarrow> outcome" where
  \<comment> \<open>a device URL that \<open>new URL\<close> rejects throws outside the \<open>try\<close>: the framework answers 500\<close>
  "http_branch cfg rt w c device =
     (let rq = proxy_request cfg c device
      in if \<not> url_parses rt (f_url rq) then respond 500 (RawBody ''Internal Server Error'')
         else (case fetch w rq of
                 FetchFailed msg \<Rightarrow>
                   \<lparr> status = 502, body = ErrorBody (''Proxy error: '' @ msg), saved = None, calls = [Fetch rq] \<rparr>
               | FetchResponse st b \<Rightarrow>
                   \<lparr> status = st, body = RawBody b, saved = None, calls = [Fetch rq] \<rparr>))"

definition proxy ::
  "config \<Rightarrow> runtime \<Rightarrow> world \<Rightarrow> (request \<Rightarrow> outcome) \<Rightarrow> request \<Rightarrow> device list \<Rightarrow> outcome" where
  \<comment> \<open>the handler of \<open>/api/d/:deviceId/*\<close>; \<open>app_fetch\<close> is the application itself, to which the
      request for the local device goes back under its plain path\<close>
  "proxy cfg rt w app_fetch c devices =
     (let deviceId = req_param c
      in if deviceId = ''local'' then
           app_fetch (c\<lparr> req_path := ''/api'' @ replace_first ''/api/d/local'' [] (req_path c),
                        req_json := (if req_method c \<noteq> ''GET'' \<and> req_method c \<noteq> ''HEAD''
                                     then req_json c else None) \<rparr>)
         else (case find (\<lambda>d. d_id d = deviceId) devices of
                 None \<Rightarrow> respond 404 (ErrorBody ''Device not found'')
               | Some device \<Rightarrow>
                   if \<not> d_enabled device then respond 403 (ErrorBody ''Device is disabled'')
                   else if truthy (d_sshHost device) then ssh_branch rt w c device
                   else http_branch cfg rt w c device))"

section \<open>Local handlers\<close>

record stats =
  st_isDirectory :: bool
  st_size :: int
  st_mtimeMs :: int

record dirent =
  de_name :: string
  de_isDirectory :: bool

record filesystem =
  \<comment> \<open>the local disk as the handlers see it: \<open>statSync\<close> and \<open>readdirSync\<close> (\<open>None\<close> when
      they throw), \<open>existsSync\<close>, and the message a copy throws, if it does\<close>
  fs_stat :: "string \<Rightarrow> stats option"
  fs_readdir :: "string \<Rightarrow> dirent list option"
  fs_exists :: "string \<Rightarrow> bool"
  fs_copy_error :: "string \<Rightarrow> string \<Rightarrow> string option"

definition local_file_items ::
  "runtime \<Rightarrow> filesystem \<Rightarrow> string \<Rightarrow> string \<Rightarrow> string \<Rightarrow> bool \<Rightarrow> dirent list \<Rightarrow> file_item list" where
  \<comment> \<open>the \<open>files\<close> of \<open>GET /api/files\<close> from the entries of the directory\<close>
  "local_file_items rt fs ROOT_DIR cwd safePath showHidden entries =
     js_sort (compare_items rt)
       (map (\<lambda>entry.
               (let fullPath = path_join safePath (de_name entry);
                    relativePath = path_relative cwd ROOT_DIR fullPath;
                    stats = fs_stat fs fullPath
                in \<lparr> fi_name = de_name entry, fi_path = relativePath,
                     fi_isDirectory = de_isDirectory entry,
                     fi_icon = getFileIcon (de_name entry) (de_isDirectory entry),
                     fi_size = (case stats of None \<Rightarrow> 0 | Some st \<Rightarrow> st_size st),
                     fi_modified = map_option st_mtimeMs stats \<rparr>))
            (filter (\<lambda>entry. showHidden \<or> \<not> prefix ''.'' (de_name entry)) entries))"

definition api_files :: "runtime \<Rightarrow> filesystem \<Rightarrow> string \<Rightarrow> string \<Rightarrow> request \<Rightarrow> outcome" where
  \<comment> \<open>\<open>GET /api/files\<close>\<close>
  "api_files rt fs ROOT_DIR cwd c =
     (case resolveSafePath ROOT_DIR cwd (searchParam c ''path'') of
        None \<Rightarrow> respond 400 (ErrorBody ''Invalid path'')
      | Some safePath \<Rightarrow>
          (case fs_stat fs safePath of
             None \<Rightarrow> respond 500 (ErrorBody ''Failed to read directory'')
           | Some st \<Rightarrow>
               if \<not> st_isDirectory st then respond 400 (ErrorBody ''Not a directory'')
               else (case fs_readdir fs safePath of
                       None \<Rightarrow> respond 500 (ErrorBody ''Failed to read directory'')
                     | Some entries \<Rightarrow>
                         (let relativePath = path_relative cwd ROOT_DIR safePath
                          in respond 200
                               (ListingBody
                                  \<lparr> l_path = relativePath, l_breadcrumbs = crumbs relativePath,
                                    l_files = local_file_items rt fs ROOT_DIR cwd safePath
                                                (searchParam c ''showHidden'' = ''true'') entries \<rparr>)))))"

definition copy_name :: "string \<Rightarrow> string \<Rightarrow> nat \<Rightarrow> string" where
  \<comment> \<open>the names the local duplicate tries: \<open>base copy\<close>, \<open>base copy 2\<close>, \<open>base copy 3\<close>, ...\<close>
  "copy_name base ext k =
     (if k = 0 then base @ '' copy'' @ ext else base @ '' copy '' @ show_nat (Suc k) @ ext)"

partial_function (option) free_copy :: "(string \<Rightarrow> bool) \<Rightarrow> string \<Rightarrow> string \<Rightarrow> string \<Rightarrow> nat \<Rightarrow> string option" where
  \<comment> \<open>the loop \<open>while (fs.existsSync(copyPath)) ...\<close>, entered with the candidate of index \<open>k\<close>\<close>
  "free_copy exists dir base ext k =
     (if exists (path_join dir (copy_name base ext k)) then free_copy exists dir base ext (Suc k)
      else Some (path_join dir (copy_name base ext k)))"

definition ENOENT :: string where
  \<comment> \<open>the message of the error that \<open>statSync\<close> throws\<close>
  "ENOENT = ''ENOENT: no such file or directory''"

definition api_duplicate :: "filesystem \<Rightarrow> string \<Rightarrow> string \<Rightarrow> request \<Rightarrow> outcome option" where
  \<comment> \<open>\<open>POST /api/duplicate\<close>; \<open>None\<close> when the loop does not end. A body that is not JSON or has
      no \<open>path\<close> throws before the \<open>try\<close>: the framework answers 500\<close>
  "api_duplicate fs ROOT_DIR cwd c =
     (case (case req_json c of None \<Rightarrow> None | Some j \<Rightarrow> j ''path'') of
        None \<Rightarrow> Some (respond 500 (RawBody ''Internal Server Error''))
      | Some srcPath \<Rightarrow>
          (case resolveSafePath ROOT_DIR cwd srcPath of
             None \<Rightarrow> Some (respond 400 (ErrorBody ''Invalid path''))
           | Some safeSrc \<Rightarrow>
               (let ext = path_extname safeSrc;
                    base = path_basename safeSrc ext;
                    dir = path_dirname safeSrc
                in case free_copy (fs_exists fs) dir base ext 0 of
                     None \<Rightarrow> None
                   | Some copyPath \<Rightarrow>
                       Some (case fs_stat fs safeSrc of
                               None \<Rightarrow> respond 500 (ErrorBody ENOENT)
                             | Some st \<Rightarrow>
                                 (let cs = [if st_isDirectory st then CpSync safeSrc copyPath
                                            else CopyFileSync safeSrc copyPath]
                                  in case fs_copy_error fs safeSrc copyPath of
                                       Some msg \<Rightarrow>
                                         \<lparr> status = 500,
                                           body = ErrorBody (if msg \<noteq> [] then msg else ''Failed to duplicate''),
                                           saved = None, calls = cs \<rparr>
                                     | None \<Rightarrow>
                                         \<lparr> status = 200,
                                           body = SuccessPath (path_relative cwd ROOT_DIR copyPath),
                                           saved = None, calls = cs \<rparr>)))))"

section \<open>Notions the properties are stated with\<close>

definition blank :: "string option \<Rightarrow> bool" where
  \<comment> \<open>a token that is absent, empty or white space only\<close>
  "blank v = (trim (case v of None \<Rightarrow> [] | Some t \<Rightarrow> t) = [])"

definition copy_path :: "string \<Rightarrow> nat \<Rightarrow> string" where
  \<comment> \<open>the \<open>k\<close>-th destination the local duplicate tries for the source \<open>safeSrc\<close>\<close>
  "copy_path safeSrc k =
     path_join (path_dirname safeSrc)
       (copy_name (path_basename safeSrc (path_extname safeSrc)) (path_extname safeSrc) k)"

definition leaf :: "string \<Rightarrow> bool" where
  \<comment> \<open>a file name: one path segment that normalisation keeps\<close>
  "leaf name = (CHR ''/'' \<notin> set name \<and> name \<noteq> [] \<and> name \<noteq> ''.'' \<and> name \<noteq> ''..'')"

definition join_prefix :: "string \<Rightarrow> string" where
  \<comment> \<open>what \<open>path.join(dir, name)\<close> writes before a file name\<close>
  "join_prefix dir =
     (if dir = [] then []
      else (if isAbsolute dir then ''/'' else [])
           @ (if normalize_segments (\<not> isAbsolute dir) dir = [] then []
              else join_with ''/'' (normalize_segments (\<not> isAbsolute dir) dir) @ ''/''))"

subsection \<open>Comparators\<close>

definition cmp_total_on :: "('a \<Rightarrow> 'a \<Rightarrow> int) \<Rightarrow> 'a set \<Rightarrow> bool" where
  "cmp_total_on cmp S = (\<forall>a\<in>S. \<forall>b\<in>S. cmp a b \<le> 0 \<or> cmp b a \<le> 0)"

definition cmp_trans_on :: "('a \<Rightarrow> 'a \<Rightarrow> int) \<Rightarrow> 'a set \<Rightarrow> bool" where
  "cmp_trans_on cmp S = (\<forall>a\<in>S. \<forall>b\<in>S. \<forall>c\<in>S. cmp a b \<le> 0 \<and> cmp b c \<le> 0 \<longrightarrow> cmp a c \<le> 0)"

definition cmp_antisym_on :: "('a \<Rightarrow> 'a \<Rightarrow> int) \<Rightarrow> 'a set \<Rightarrow> bool" where
  "cmp_antisym_on cmp S = (\<forall>a\<in>S. \<forall>b\<in>S. cmp a b \<le> 0 \<and> cmp b a \<le> 0 \<longrightarrow> a = b)"

definition collation_orders :: "runtime \<Rightarrow> string set \<Rightarrow> bool" where
  \<comment> \<open>\<open>localeCompare\<close> is a total order on these names, no two of them comparing equal\<close>
  "collation_orders rt N =
     (cmp_total_on (localeCompare rt) N \<and> cmp_trans_on (localeCompare rt) N
      \<and> cmp_antisym_on (localeCompare rt) N)"

definition ordinal_compare :: "string \<Rightarrow> string \<Rightarrow> int" where
  \<comment> \<open>comparison by code units, for examples: the code does not call it\<close>
  "ordinal_compare a b = (if a = b then 0 else if a < b then - 1 else 1)"

definition listing_order :: "runtime \<Rightarrow> file_item \<Rightarrow> file_item \<Rightarrow> bool" where
  \<comment> \<open>\<open>a\<close> may stand before \<open>b\<close>: no file before a directory, and within directories and within
      files the names in the order of \<open>localeCompare\<close>\<close>
  "listing_order rt a b =
     ((fi_isDirectory a \<or> \<not> fi_isDirectory b)
      \<and> (fi_isDirectory a = fi_isDirectory b \<longrightarrow> localeCompare rt (fi_name a) (fi_name b) \<le> 0))"

subsection \<open>One directory seen by both listings\<close>

record dir_entry =
  \<comment> \<open>an entry of a directory: name, whether it is a directory, size in bytes, time of
      modification in seconds since the epoch\<close>
  e_name :: string
  e_isDir :: bool
  e_size :: nat
  e_mtime :: nat

definition type_word :: "bool \<Rightarrow> bool \<Rightarrow> string" where
  \<comment> \<open>the file type as BSD \<open>stat -f %HT\<close> or GNU \<open>stat --format=%F\<close> prints it\<close>
  "type_word bsd isDir =
     (if isDir then (if bsd then ''Directory'' else ''directory'')
      else (if bsd then ''Regular File'' else ''regular file''))"

definition stat_line :: "bool \<Rightarrow> dir_entry \<Rightarrow> string" where
  \<comment> \<open>the line the remote \<open>stat\<close> prints for an entry\<close>
  "stat_line bsd e =
     type_word bsd (e_isDir e) @ ''|'' @ e_name e @ ''|'' @ show_nat (e_size e) @ ''|'' @ show_nat (e_mtime e)"

definition remote_output :: "bool \<Rightarrow> dir_entry list \<Rightarrow> string" where
  \<comment> \<open>the output of the list command for the entries \<open>ls\<close> names, in its order\<close>
  "remote_output bsd es = concat (map (\<lambda>e. stat_line bsd e @ nl) es)"

definition ssh_item :: "string \<Rightarrow> dir_entry \<Rightarrow> file_item" where
  \<comment> \<open>the item the SSH listing makes of an entry\<close>
  "ssh_item requestedPath e =
     \<lparr> fi_name = e_name e,
       fi_path = (if requestedPath \<noteq> [] then requestedPath @ ''/'' @ e_name e else e_name e),
       fi_isDirectory = e_isDir e,
       fi_icon = (if e_isDir e then ''folder'' else getFileType (e_name e)),
       fi_size = (if e_isDir e then 0 else int (e_size e)),
       fi_modified = Some (int (e_mtime e) * 1000) \<rparr>"

definition dirent_of :: "dir_entry \<Rightarrow> dirent" where
  \<comment> \<open>the same entry as \<open>readdirSync\<close> returns it\<close>
  "dirent_of e = \<lparr> de_name = e_name e, de_isDirectory = e_isDir e \<rparr>"

definition stats_of :: "dir_entry \<Rightarrow> stats" where
  \<comment> \<open>and as \<open>statSync\<close> describes it\<close>
  "stats_of e = \<lparr> st_isDirectory = e_isDir e, st_size = int (e_size e), st_mtimeMs = int (e_mtime e) * 1000 \<rparr>"

definition local_item :: "string \<Rightarrow> string \<Rightarrow> string \<Rightarrow> dir_entry \<Rightarrow> file_item" where
  \<comment> \<open>the item the local listing makes of an entry\<close>
  "local_item ROOT_DIR cwd safePath e =
     \<lparr> fi_name = e_name e,
       fi_path = path_relative cwd ROOT_DIR (path_join safePath (e_name e)),
       fi_isDirectory = e_isDir e,
       fi_icon = getFileIcon (e_name e) (e_isDir e),
       fi_size = int (e_size e),
       fi_modified = Some (int (e_mtime e) * 1000) \<rparr>"

definition visible :: "bool \<Rightarrow> dir_entry \<Rightarrow> bool" where
  \<comment> \<open>listed: hidden files are asked for, or the name has no leading dot\<close>
  "visible showHidden e = (showHidden \<or> \<not> prefix ''.'' (e_name e))"

definition view :: "file_item \<Rightarrow> string \<times> bool \<times> string \<times> int option \<times> int" where
  \<comment> \<open>an item without its path, and without its size when it is a directory\<close>
  "view f = (fi_name f, fi_isDirectory f, fi_icon f, fi_modified f,
             if fi_isDirectory f then 0 else fi_size f)"

definition compare_entries :: "runtime \<Rightarrow> dir_entry \<Rightarrow> dir_entry \<Rightarrow> int" where
  \<comment> \<open>\<open>compare_items\<close> on the entries the items come from\<close>
  "compare_entries rt a b =
     (if e_isDir a \<and> \<not> e_isDir b then - 1
      else if \<not> e_isDir a \<and> e_isDir b then 1
      else localeCompare rt (e_name a) (e_name b))"

section \<open>Example inputs\<close>

definition cfg_none :: config where
  "cfg_none = \<lparr> ADMIN_API_TOKEN = [], READ_API_TOKEN = [] \<rparr>"

definition cfg_ar :: config where
  "cfg_ar = \<lparr> ADMIN_API_TOKEN = ''adm'', READ_API_TOKEN = ''rd'' \<rparr>"

definition cfg_same :: config where
  "cfg_same = \<lparr> ADMIN_API_TOKEN = ''s'', READ_API_TOKEN = ''s'' \<rparr>"

definition plain_req :: "string \<Rightarrow> string \<Rightarrow> request" where
  "plain_req m p = \<lparr> req_method = m, req_path = p, req_param = [],
       req_headers = Map.empty, req_query = [], req_json = None \<rparr>"

definition bearer_req :: "string \<Rightarrow> string \<Rightarrow> string \<Rightarrow> request" where
  "bearer_req m p tok = \<lparr> req_method = m, req_path = p, req_param = [],
       req_headers = [''authorization'' \<mapsto> ''Bearer '' @ tok], req_query = [], req_json = None \<rparr>"

definition w_up :: world where
  \<comment> \<open>every remote answers\<close>
  "w_up = \<lparr> ssh = (\<lambda>host cmd t. \<lparr> stdout = ''ok'' @ [CHR 0x0A] @ ''/home/me'' @ [CHR 0x0A], stderr = [], code = 0 \<rparr>),
            fetch = (\<lambda>rq. FetchResponse 200 []), now = 1700000000000 \<rparr>"

definition w_down :: world where
  \<comment> \<open>no remote answers\<close>
  "w_down = \<lparr> ssh = (\<lambda>host cmd t. \<lparr> stdout = [], stderr = ''timeout'', code = 124 \<rparr>),
              fetch = (\<lambda>rq. FetchFailed ''connect ECONNREFUSED''), now = 1700000000000 \<rparr>"

definition http_add :: "string \<Rightarrow> string option \<Rightarrow> add_body" where
  "http_add n tok = \<lparr> b_name = Some n, b_url = Some ''http://host:3456/'', b_icon = None,
       b_sshHost = None, b_sshRoot = None, b_authToken = tok \<rparr>"

definition ssh_add :: "string \<Rightarrow> add_body" where
  "ssh_add h = \<lparr> b_name = None, b_url = None, b_icon = None,
       b_sshHost = Some h, b_sshRoot = None, b_authToken = None \<rparr>"

definition no_update :: update_body where
  "no_update = \<lparr> u_name = None, u_url = None, u_authToken = None, u_icon = None, u_enabled = None \<rparr>"

definition no_settings :: settings where
  "no_settings = \<lparr> localName = None, localIcon = None \<rparr>"

definition tokened :: device where
  "tokened = \<lparr> d_id = ''tokened'', d_name = ''Tokened'', d_url = ''http://host:3456'',
       d_sshHost = None, d_sshRoot = None, d_authToken = Some ''secret-token'',
       d_icon = Some DEVICE_ICON, d_enabled = True \<rparr>"

definition tokened_public :: public_device where
  "tokened_public = \<lparr> p_id = ''tokened'', p_name = ''Tokened'', p_url = ''http://host:3456'',
       p_sshHost = None, p_sshRoot = None, p_icon = Some DEVICE_ICON, p_enabled = True,
       p_hasAuthToken = Some True, p_isLocal = None \<rparr>"

definition add_req :: request where
  "add_req = plain_req ''POST'' ''/api/devices''"

definition rt0 :: runtime where
  "rt0 = \<lparr> localeCompare = ordinal_compare, fuse_search = (\<lambda>items q. items),
           base64 = (\<lambda>s. s), url_parses = (\<lambda>u. True) \<rparr>"

definition app0 :: "request \<Rightarrow> outcome" where
  "app0 c = respond 200 (FilesBody [])"

definition disabled_device :: device where
  "disabled_device = tokened\<lparr> d_enabled := False \<rparr>"

definition plain_device :: device where
  \<comment> \<open>an HTTP device with no token of its own\<close>
  "plain_device = tokened\<lparr> d_id := ''mini'', d_name := ''Mini'', d_authToken := None \<rparr>"

definition ssh_device :: device where
  "ssh_device = \<lparr> d_id = ''macbook'', d_name = ''macbook'', d_url = [],
       d_sshHost = Some ''macbook'', d_sshRoot = Some ''/Users/me'', d_authToken = None,
       d_icon = Some DEVICE_ICON, d_enabled = True \<rparr>"

definition proxy_req :: "string \<Rightarrow> string \<Rightarrow> string \<Rightarrow> request" where
  "proxy_req m dev rest = \<lparr> req_method = m, req_path = ''/api/d/'' @ dev @ ''/'' @ rest, req_param = dev,
       req_headers = Map.empty, req_query = [(''path'', [])], req_json = None \<rparr>"

definition basic_req :: request where
  \<comment> \<open>a caller with an \<open>Authorization\<close> header that is not a bearer token\<close>
  "basic_req = (proxy_req ''GET'' ''mini'' ''files'')\<lparr> req_headers := [''authorization'' \<mapsto> ''Basic abc''] \<rparr>"

definition dup_req :: request where
  "dup_req = (proxy_req ''POST'' ''macbook'' ''duplicate'')\<lparr> req_json := Some [''path'' \<mapsto> ''docs/a.txt''] \<rparr>"

definition local_dup_req :: request where
  "local_dup_req = (plain_req ''POST'' ''/api/duplicate'')\<lparr> req_json := Some [''path'' \<mapsto> ''a.txt''] \<rparr>"

definition src_dir :: dir_entry where
  "src_dir = \<lparr> e_name = ''src'', e_isDir = True, e_size = 4096, e_mtime = 1700000000 \<rparr>"

definition a_txt :: dir_entry where
  "a_txt = \<lparr> e_name = ''a.txt'', e_isDir = False, e_size = 12, e_mtime = 1700000001 \<rparr>"

definition dot_env :: dir_entry where
  "dot_env = \<lparr> e_name = ''.env'', e_isDir = False, e_size = 5, e_mtime = 1700000002 \<rparr>"

definition fs0 :: filesystem where
  \<comment> \<open>a root \<open>/home/u\<close> that holds the three entries above and two copies of \<open>a.txt\<close>\<close>
  "fs0 = \<lparr> fs_stat = (\<lambda>p. if p = ''/home/u/src'' then Some (stats_of src_dir)
                           else if p = ''/home/u/a.txt'' then Some (stats_of a_txt)
                           else if p = ''/home/u/.env'' then Some (stats_of dot_env)
                           else None),
           fs_readdir = (\<lambda>p. if p = ''/home/u'' then Some (map dirent_of [dot_env, a_txt, src_dir]) else None),
           fs_exists = (\<lambda>p. p \<in> set [''/home/u'', ''/home/u/src'', ''/home/u/a.txt'', ''/home/u/.env'',
                                     ''/home/u/a copy.txt'', ''/home/u/a copy 2.txt'']),
           fs_copy_error = (\<lambda>src dest. None) \<rparr>"


section \<open>Properties\<close>

lemmas string_defs = trim_def is_space_def toLowerCase_def to_lower_char_def toUpperCase_def
  to_upper_char_def digit_char_def

lemmas auth_defs = auth_middleware_def AUTH_ENABLED_def getAuthRole_def token_is_def
  getTokenFromRequest_def header_def searchParam_def isWrite_def normalizeBearer_def
  getForwardAuthHeader_def

lemmas slug_defs = slugify_def is_slug_char_def strip_edge_hyphens_def derive_id_def spec_slug_def

lemmas registry_defs = post_devices_def post_devices_ssh_def post_devices_http_def respond_def
  put_devices_def delete_devices_def id_taken_def probe_req_def res_ok_def truthy_def or_else_def
  strip_trailing_slashes_def toPublicDevice_def persist_def add_name_def has_local_def
  apply_update_def ssh_probe_failed_def http_probe_failed_def

lemmas example_defs = cfg_none_def cfg_ar_def cfg_same_def plain_req_def bearer_req_def w_up_def
  w_down_def http_add_def ssh_add_def no_update_def no_settings_def tokened_def
  tokened_public_def add_req_def rt0_def app0_def disabled_device_def plain_device_def
  ssh_device_def proxy_req_def basic_req_def dup_req_def local_dup_req_def src_dir_def a_txt_def
  dot_env_def fs0_def

subsection \<open>Path sandbox\<close>

text \<open>
  C1. The claim: every path returned by \<open>resolveSafePath\<close> is the browsing root or lies
  below it. The code compares with \<open>startsWith(ROOT_DIR)\<close> only, so with the root
  \<open>/home/user\<close> the request \<open>../user2/secret\<close> is answered with \<open>/home/user2/secret\<close>, a
  path in a sibling directory whose name extends the root's.
\<close>

theorem resolveSafePath_sibling_escape:
  "resolveSafePath ''/home/user'' ''/srv/app'' ''../user2/secret'' = Some ''/home/user2/secret''
   \<and> \<not> inside_root ''/home/user'' ''/home/user2/secret''"
  by (simp add: resolveSafePath_def inside_root_def path_resolve_def isAbsolute_def
      normalizeString_def normalize_segments_def)

subsection \<open>Auth gate\<close>

lemma getTokenFromRequest_nonempty: "getTokenFromRequest c = Some t \<Longrightarrow> t \<noteq> []"
  by (auto simp: getTokenFromRequest_def Let_def split: if_splits)

text \<open>
  C2, as the code has it. With auth enabled and a path other than \<open>/api/auth/status\<close>: a
  request with no token, or with a token that is neither secret, gets 401; a request whose
  token is the read token, the read token not being the admin token as well, gets 403 on
  a write method (one whose upper-cased name is not GET, HEAD or OPTIONS); a request whose
  token is the admin token passes. With no secret configured the role is admin for any
  token and every request passes. The request's token is the one \<open>getTokenFromRequest\<close>
  extracts.
\<close>

theorem auth_gate_roles:
  "(AUTH_ENABLED cfg \<and> req_path c \<noteq> ''/api/auth/status'' \<longrightarrow>
      ((getTokenFromRequest c = None
        \<or> (\<exists>t. getTokenFromRequest c = Some t \<and> t \<noteq> ADMIN_API_TOKEN cfg \<and> t \<noteq> READ_API_TOKEN cfg))
         \<longrightarrow> auth_middleware cfg c = Reject 401 ''Unauthorized'')
    \<and> (getTokenFromRequest c = Some (READ_API_TOKEN cfg) \<and> READ_API_TOKEN cfg \<noteq> ADMIN_API_TOKEN cfg
         \<and> isWrite (req_method c)
         \<longrightarrow> auth_middleware cfg c = Reject 403 ''Admin token required for write operations'')
    \<and> (getTokenFromRequest c = Some (ADMIN_API_TOKEN cfg) \<longrightarrow> auth_middleware cfg c = Next))
   \<and> (\<not> AUTH_ENABLED cfg \<longrightarrow> getAuthRole cfg tok = Some Admin \<and> auth_middleware cfg c = Next)"
  by (auto simp: auth_middleware_def getAuthRole_def token_is_def dest: getTokenFromRequest_nonempty)

theorem auth_gate_roles_witness:
  "auth_middleware cfg_ar (plain_req ''GET'' ''/api/files'') = Reject 401 ''Unauthorized''
   \<and> auth_middleware cfg_ar (bearer_req ''GET'' ''/api/files'' ''guess'') = Reject 401 ''Unauthorized''
   \<and> auth_middleware cfg_ar (bearer_req ''POST'' ''/api/mkdir'' ''rd'')
        = Reject 403 ''Admin token required for write operations''
   \<and> auth_middleware cfg_ar (bearer_req ''DELETE'' ''/api/devices/mini'' ''adm'') = Next
   \<and> auth_middleware cfg_none (plain_req ''POST'' ''/api/mkdir'') = Next"
  using auth_gate_roles [of cfg_ar "plain_req ''GET'' ''/api/files''"]
    auth_gate_roles [of cfg_ar "bearer_req ''GET'' ''/api/files'' ''guess''"]
    auth_gate_roles [of cfg_ar "bearer_req ''POST'' ''/api/mkdir'' ''rd''"]
    auth_gate_roles [of cfg_ar "bearer_req ''DELETE'' ''/api/devices/mini'' ''adm''"]
    auth_gate_roles [of cfg_none "plain_req ''POST'' ''/api/mkdir''"]
  by (simp add: example_defs AUTH_ENABLED_def getTokenFromRequest_def header_def searchParam_def
      isWrite_def string_defs)

text \<open>
  C2 as stated fails where one secret serves as admin and as read token: the role is
  resolved to admin first, and a write request with that token passes.
\<close>

theorem auth_gate_shared_secret_counterexample:
  "AUTH_ENABLED cfg_same
   \<and> getTokenFromRequest (bearer_req ''POST'' ''/api/mkdir'' ''s'') = Some (READ_API_TOKEN cfg_same)
   \<and> isWrite (req_method (bearer_req ''POST'' ''/api/mkdir'' ''s''))
   \<and> auth_middleware cfg_same (bearer_req ''POST'' ''/api/mkdir'' ''s'') = Next"
  by (simp add: example_defs auth_defs string_defs)

subsection \<open>Public device representations\<close>

lemma findIndex_Some: "findIndex P xs = Some i \<Longrightarrow> i < length xs \<and> P (xs ! i)"
  by (induction xs arbitrary: i) (auto split: if_splits)

lemma put_devices_public:
  assumes "body (put_devices i u devices) = SuccessDevice p"
  shows "\<exists>ds d. saved (put_devices i u devices) = Some ds \<and> d \<in> set ds \<and> p = toPublicDevice d"
proof (cases "i = ''local''")
  case True
  with assms show ?thesis by (simp add: put_devices_def respond_def)
next
  case False
  show ?thesis
  proof (cases "findIndex (\<lambda>d. d_id d = i) devices")
    case None
    with assms False show ?thesis by (simp add: put_devices_def respond_def)
  next
    case (Some idx)
    then have "idx < length devices" by (simp add: findIndex_Some)
    then have "devices[idx := apply_update u (devices ! idx)] ! idx
                 \<in> set (devices[idx := apply_update u (devices ! idx)])"
      by (simp add: set_update_memI)
    with assms False Some show ?thesis
      by (auto simp: put_devices_def Let_def)
  qed
qed

lemma post_devices_ok:
  assumes "status (post_devices cfg w c b devices) = 200"
  shows "\<exists>d. saved (post_devices cfg w c b devices) = Some (devices @ [d])
           \<and> body (post_devices cfg w c b devices) = SuccessDevice (toPublicDevice d)
           \<and> d_id d = derive_id (add_name b) (now w)
           \<and> \<not> id_taken (d_id d) devices"
proof (cases "truthy (b_sshHost b)")
  case True
  with assms show ?thesis
    by (auto simp: post_devices_def post_devices_ssh_def respond_def Let_def add_name_def
        split: if_splits)
next
  case False
  then have h: "or_else (b_sshHost b) [] = []"
    by (auto simp: truthy_def or_else_def split: option.splits)
  from assms False show ?thesis
    by (auto simp: post_devices_def post_devices_http_def respond_def Let_def add_name_def h
        split: if_splits fetch_result.splits)
qed

lemma post_devices_public:
  assumes "body (post_devices cfg w c b devices) = SuccessDevice p"
  shows "\<exists>d. saved (post_devices cfg w c b devices) = Some (devices @ [d]) \<and> p = toPublicDevice d"
  using assms
  by (auto simp: post_devices_def post_devices_ssh_def post_devices_http_def respond_def Let_def
      split: if_splits fetch_result.splits)

text \<open>
  C6, as the code has it. The public form of a stored device has no token field (the
  record \<open>public_device\<close> has none) and its \<open>hasAuthToken\<close> is present, true exactly when a
  non-empty token is stored; two stored records that differ in the token only have
  public forms that agree once \<open>hasAuthToken\<close> is set aside. The list endpoint returns
  these forms after the entry for the local machine, which has no \<open>hasAuthToken\<close>; a
  device in an add or update response is the public form of a device just saved.
\<close>

theorem public_device_redacts:
  "p_hasAuthToken (toPublicDevice d) = Some (truthy (d_authToken d))
   \<and> (toPublicDevice (d\<lparr>d_authToken := t1\<rparr>))\<lparr>p_hasAuthToken := x\<rparr>
       = (toPublicDevice (d\<lparr>d_authToken := t2\<rparr>))\<lparr>p_hasAuthToken := x\<rparr>
   \<and> tl (get_devices st hostname devices) = map toPublicDevice devices
   \<and> p_id (hd (get_devices st hostname devices)) = ''local''
   \<and> p_hasAuthToken (hd (get_devices st hostname devices)) = None
   \<and> (body (post_devices cfg w c b devices) = SuccessDevice p \<longrightarrow>
        (\<exists>d'. saved (post_devices cfg w c b devices) = Some (devices @ [d']) \<and> p = toPublicDevice d'))
   \<and> (body (put_devices i u devices) = SuccessDevice p \<longrightarrow>
        (\<exists>ds d'. saved (put_devices i u devices) = Some ds \<and> d' \<in> set ds \<and> p = toPublicDevice d'))"
  using post_devices_public put_devices_public
  by (simp add: toPublicDevice_def get_devices_def)

lemma add_tokened:
  "post_devices cfg_none w_up add_req (http_add ''Tokened'' (Some '' secret-token '')) []
     = \<lparr> status = 200, body = SuccessDevice tokened_public, saved = Some [tokened],
         calls = [Fetch (probe_req ''http://host:3456'' (Some ''Bearer secret-token''))] \<rparr>"
  by (simp add: example_defs registry_defs slug_defs auth_defs string_defs Let_def)

theorem public_device_redacts_witness:
  "body (post_devices cfg_none w_up add_req (http_add ''Tokened'' (Some '' secret-token '')) [])
     = SuccessDevice tokened_public
   \<and> (\<exists>d'. saved (post_devices cfg_none w_up add_req (http_add ''Tokened'' (Some '' secret-token '')) [])
              = Some ([] @ [d'])
           \<and> tokened_public = toPublicDevice d')
   \<and> body (put_devices ''tokened'' no_update [tokened]) = SuccessDevice tokened_public
   \<and> (\<exists>ds d'. saved (put_devices ''tokened'' no_update [tokened]) = Some ds \<and> d' \<in> set ds
           \<and> tokened_public = toPublicDevice d')"
proof -
  have a: "body (post_devices cfg_none w_up add_req (http_add ''Tokened'' (Some '' secret-token '')) [])
             = SuccessDevice tokened_public"
    by (simp add: add_tokened)
  have b: "body (put_devices ''tokened'' no_update [tokened]) = SuccessDevice tokened_public"
    by (simp add: put_devices_def no_update_def apply_update_def tokened_def tokened_public_def
        toPublicDevice_def truthy_def)
  show ?thesis
    using a b
      public_device_redacts [where devices = "[]" and cfg = cfg_none and w = w_up
        and c = add_req and b = "http_add ''Tokened'' (Some '' secret-token '')"
        and p = tokened_public]
      public_device_redacts [where devices = "[tokened]" and i = "''tokened''" and u = no_update
        and p = tokened_public]
    by simp
qed

text \<open>
  C6 as stated fails at the list endpoint: the first representation it returns, the one
  of the local machine, has no \<open>hasAuthToken\<close> at all.
\<close>

theorem list_local_entry_counterexample:
  "hd (get_devices no_settings None []) \<in> set (get_devices no_settings None [])
   \<and> p_id (hd (get_devices no_settings None [])) = ''local''
   \<and> p_hasAuthToken (hd (get_devices no_settings None [])) = None"
  by (simp add: get_devices_def)

subsection \<open>Device ids\<close>

lemma hyphen_not_slug: "\<not> is_slug_char CHR ''-''"
  by (simp add: is_slug_char_def)

lemma hyphenate_collapse:
  "collapse_runs False s = hyphenate s
   \<and> collapse_runs True s = hyphenate (dropWhile (\<lambda>x. \<not> is_slug_char x) s)"
  by (induction s) auto

lemma hyphenate_hd: "hyphenate t = CHR ''-'' # r \<Longrightarrow> t \<noteq> [] \<and> \<not> is_slug_char (hd t)"
  by (cases t) (auto simp: hyphen_not_slug split: if_splits)

lemma hyphenate_dropWhile_hd:
  "hyphenate (dropWhile (\<lambda>x. \<not> is_slug_char x) cs) \<noteq> CHR ''-'' # r"
proof
  assume "hyphenate (dropWhile (\<lambda>x. \<not> is_slug_char x) cs) = CHR ''-'' # r"
  then have "dropWhile (\<lambda>x. \<not> is_slug_char x) cs \<noteq> []
     \<and> \<not> is_slug_char (hd (dropWhile (\<lambda>x. \<not> is_slug_char x) cs))"
    by (rule hyphenate_hd)
  then show False using hd_dropWhile[of "\<lambda>x. \<not> is_slug_char x" cs] by simp
qed

lemma hyphenate_no_double: "\<not> sublist ''--'' (hyphenate s)"
proof (induction s rule: hyphenate.induct)
  case 1
  then show ?case by simp
next
  case (2 c cs)
  show ?case
  proof (cases "is_slug_char c")
    case True
    with 2 show ?thesis by (auto simp: sublist_Cons_right hyphen_not_slug)
  next
    case False
    with 2 have ih: "\<not> sublist ''--'' (hyphenate (dropWhile (\<lambda>x. \<not> is_slug_char x) cs))" by simp
    have "\<not> prefix ''--'' (CHR ''-'' # hyphenate (dropWhile (\<lambda>x. \<not> is_slug_char x) cs))"
      using hyphenate_dropWhile_hd[of cs]
      by (cases "hyphenate (dropWhile (\<lambda>x. \<not> is_slug_char x) cs)") auto
    with ih False show ?thesis by (simp add: sublist_Cons_right)
  qed
qed

lemma strip_one_front:
  assumes "\<not> sublist ''--'' h"
  shows "(case h of [] \<Rightarrow> [] | c # cs \<Rightarrow> if c = CHR ''-'' then cs else h) = dropWhile (\<lambda>c. c = CHR ''-'') h"
proof (cases h)
  case Nil
  then show ?thesis by simp
next
  case (Cons c cs)
  show ?thesis
  proof (cases "c = CHR ''-''")
    case True
    with Cons assms have "cs = [] \<or> hd cs \<noteq> CHR ''-''"
      by (cases cs) (auto simp: sublist_Cons_right)
    then have "dropWhile (\<lambda>c. c = CHR ''-'') cs = cs" by (cases cs) auto
    with Cons True show ?thesis by simp
  next
    case False
    with Cons show ?thesis by simp
  qed
qed

lemma strip_one_back:
  assumes "\<not> sublist ''--'' h"
  shows "(if h \<noteq> [] \<and> last h = CHR ''-'' then butlast h else h)
           = rev (dropWhile (\<lambda>c. c = CHR ''-'') (rev h))"
proof -
  have r: "\<not> sublist ''--'' (rev h)"
    using assms sublist_rev[of "''--''" h] by simp
  have "(case rev h of [] \<Rightarrow> [] | c # cs \<Rightarrow> if c = CHR ''-'' then cs else rev h)
          = dropWhile (\<lambda>c. c = CHR ''-'') (rev h)"
    using strip_one_front[OF r] .
  moreover have "rev (case rev h of [] \<Rightarrow> [] | c # cs \<Rightarrow> if c = CHR ''-'' then cs else rev h)
          = (if h \<noteq> [] \<and> last h = CHR ''-'' then butlast h else h)"
    by (cases h rule: rev_cases) auto
  ultimately show ?thesis by simp
qed

lemma sublist_dropWhile: "\<not> sublist p h \<Longrightarrow> \<not> sublist p (dropWhile P h)"
  by (metis sublist_order.order_trans suffix_dropWhile suffix_imp_sublist)

lemma slugify_spec: "slugify name = spec_slug name"
proof -
  let ?h = "hyphenate (toLowerCase name)"
  have nd: "\<not> sublist ''--'' ?h" by (rule hyphenate_no_double)
  have f: "(case ?h of [] \<Rightarrow> [] | c # cs \<Rightarrow> if c = CHR ''-'' then cs else ?h) = dropWhile (\<lambda>c. c = CHR ''-'') ?h"
    by (rule strip_one_front[OF nd])
  have nd2: "\<not> sublist ''--'' (dropWhile (\<lambda>c. c = CHR ''-'') ?h)"
    by (rule sublist_dropWhile[OF nd])
  show ?thesis
    unfolding slugify_def spec_slug_def strip_edge_hyphens_def Let_def f
    using strip_one_back[OF nd2] hyphenate_collapse[of "toLowerCase name"] by simp
qed

text \<open>
  C8. A successful add (status 200) saves the old list with one device appended and
  returns that device's public form; the device's id is the slug of the request's name
  (\<open>name\<close>, or \<open>sshHost\<close> when no name is given) as the specification words it: lowercased,
  each maximal run outside \<open>[a-z0-9]\<close> replaced by one hyphen, leading and trailing hyphens
  removed; when that slug is empty the id is \<open>device-\<close> followed by the clock's reading.
\<close>

theorem add_id_is_slug:
  "status (post_devices cfg w c b devices) = 200 \<longrightarrow>
     (\<exists>d. saved (post_devices cfg w c b devices) = Some (devices @ [d])
        \<and> body (post_devices cfg w c b devices) = SuccessDevice (toPublicDevice d)
        \<and> d_id d = (if spec_slug (add_name b) \<noteq> [] then spec_slug (add_name b)
                     else ''device-'' @ show_nat (now w)))"
  using post_devices_ok[of cfg w c b devices]
  by (auto simp: derive_id_def Let_def slugify_spec)

lemma add_self_loop_status:
  "status (post_devices cfg_none w_up add_req (http_add ''Self Loop'' None) []) = 200"
  by (simp add: example_defs registry_defs slug_defs auth_defs string_defs Let_def)

lemma add_unnamed_status:
  "status (post_devices cfg_none w_up add_req (ssh_add ''!!!'') []) = 200"
  by (simp add: example_defs registry_defs slug_defs auth_defs string_defs Let_def)

theorem add_id_is_slug_witness:
  "(\<exists>d. saved (post_devices cfg_none w_up add_req (http_add ''Self Loop'' None) []) = Some ([] @ [d])
        \<and> body (post_devices cfg_none w_up add_req (http_add ''Self Loop'' None) [])
            = SuccessDevice (toPublicDevice d)
        \<and> d_id d = ''self-loop'')
   \<and> (\<exists>d. saved (post_devices cfg_none w_up add_req (ssh_add ''!!!'') []) = Some ([] @ [d])
        \<and> body (post_devices cfg_none w_up add_req (ssh_add ''!!!'') [])
            = SuccessDevice (toPublicDevice d)
        \<and> d_id d = ''device-1700000000000'')"
proof -
  have a: "spec_slug (add_name (http_add ''Self Loop'' None)) = ''self-loop''"
    by (simp add: spec_slug_def add_name_def http_add_def or_else_def is_slug_char_def string_defs)
  have b: "spec_slug (add_name (ssh_add ''!!!'')) = []"
    by (simp add: spec_slug_def add_name_def ssh_add_def or_else_def is_slug_char_def string_defs)
  have c: "show_nat (now w_up) = ''1700000000000''"
    by (simp add: w_up_def show_nat.simps digit_char_def)
  show ?thesis
    using add_id_is_slug [of cfg_none w_up add_req "http_add ''Self Loop'' None" "[]"]
      add_id_is_slug [of cfg_none w_up add_req "ssh_add ''!!!''" "[]"]
      add_self_loop_status add_unnamed_status
    by (simp add: a b c)
qed

subsection \<open>The reserved id\<close>

lemma post_devices_conflict:
  assumes "truthy (b_sshHost b) \<or> (truthy (b_name b) \<and> truthy (b_url b))"
    and "id_taken (derive_id (add_name b) (now w)) devices"
  shows "status (post_devices cfg w c b devices) = 409
         \<and> saved (post_devices cfg w c b devices) = None
         \<and> calls (post_devices cfg w c b devices) = []"
proof (cases "truthy (b_sshHost b)")
  case True
  with assms show ?thesis
    by (simp add: post_devices_def post_devices_ssh_def respond_def Let_def add_name_def)
next
  case False
  then have h: "or_else (b_sshHost b) [] = []"
    by (auto simp: truthy_def or_else_def split: option.splits)
  from assms False show ?thesis
    by (simp add: post_devices_def post_devices_http_def respond_def Let_def add_name_def h)
qed

lemma slug_local_taken: "slugify n = ''local'' \<Longrightarrow> id_taken (derive_id n t) devices"
  by (simp add: derive_id_def id_taken_def)

lemma has_local_append: "has_local (ds @ [d]) = (has_local ds \<or> d_id d = ''local'')"
  by (simp add: has_local_def)

lemma has_local_filter: "\<not> has_local ds \<Longrightarrow> \<not> has_local (filter P ds)"
  by (auto simp: has_local_def list_ex_iff)

lemma apply_update_id: "d_id (apply_update u d) = d_id d"
  by (simp add: apply_update_def Let_def split: option.splits)

lemma has_local_update:
  assumes "\<not> has_local ds" and "i < length ds"
  shows "\<not> has_local (ds[i := apply_update u (ds ! i)])"
proof
  assume "has_local (ds[i := apply_update u (ds ! i)])"
  then obtain d where d: "d \<in> set (ds[i := apply_update u (ds ! i)])" "d_id d = ''local''"
    by (auto simp: has_local_def list_ex_iff)
  from d(1) have "d = apply_update u (ds ! i) \<or> d \<in> set ds"
    using set_update_subset_insert[of ds i "apply_update u (ds ! i)"] by auto
  then show False
  proof
    assume "d = apply_update u (ds ! i)"
    with d(2) have "d_id (ds ! i) = ''local''" by (simp add: apply_update_id)
    moreover have "ds ! i \<in> set ds" using assms(2) by simp
    ultimately show False using assms(1) by (auto simp: has_local_def list_ex_iff)
  next
    assume "d \<in> set ds"
    with d(2) assms(1) show False by (auto simp: has_local_def list_ex_iff)
  qed
qed

lemma post_devices_saved_status:
  "saved (post_devices cfg w c b devices) \<noteq> None \<Longrightarrow> status (post_devices cfg w c b devices) = 200"
  by (auto simp: post_devices_def post_devices_ssh_def post_devices_http_def respond_def Let_def
      split: if_splits fetch_result.splits)

lemma run_op_no_local: "\<not> has_local devices \<Longrightarrow> \<not> has_local (run_op devices op)"
proof (cases op)
  case (Add cfg w c b)
  assume nl: "\<not> has_local devices"
  show ?thesis
  proof (cases "status (post_devices cfg w c b devices) = 200")
    case True
    from post_devices_ok[OF True] obtain d where
      d: "saved (post_devices cfg w c b devices) = Some (devices @ [d])" "\<not> id_taken (d_id d) devices"
      by blast
    from d(2) have "d_id d \<noteq> ''local''" by (simp add: id_taken_def)
    with d(1) nl Add show ?thesis by (simp add: persist_def has_local_append)
  next
    case False
    then have "saved (post_devices cfg w c b devices) = None"
      using post_devices_saved_status[of cfg w c b devices] by blast
    with nl Add show ?thesis by (simp add: persist_def)
  qed
next
  case (Update i u)
  assume nl: "\<not> has_local devices"
  show ?thesis
  proof (cases "findIndex (\<lambda>d. d_id d = i) devices")
    case None
    with nl Update show ?thesis by (simp add: persist_def put_devices_def respond_def)
  next
    case (Some idx)
    then have "idx < length devices" by (simp add: findIndex_Some)
    from has_local_update[OF nl this] Some nl Update show ?thesis
      by (simp add: persist_def put_devices_def respond_def Let_def)
  qed
next
  case (Delete i)
  assume nl: "\<not> has_local devices"
  with Delete show ?thesis
    by (simp add: persist_def delete_devices_def respond_def Let_def has_local_filter)
qed

lemma run_ops_no_local: "\<not> has_local devices \<Longrightarrow> \<not> has_local (foldl run_op devices ops)"
  by (induction ops arbitrary: devices) (simp_all add: run_op_no_local)

text \<open>
  C3. An add request that has its mode's required fields (\<open>sshHost\<close>, or \<open>name\<close> and
  \<open>url\<close>) and whose slug is \<open>local\<close>, or whose derived id is taken by a stored device, is
  answered 409, leaves \<open>devices.json\<close> as it was and calls nothing outside; update and
  delete of the id \<open>local\<close> are answered 400 and leave the file as it was; and a file
  with no entry of id \<open>local\<close> has none after any sequence of add, update and delete
  requests.
\<close>

theorem local_never_persisted:
  "((truthy (b_sshHost b) \<or> (truthy (b_name b) \<and> truthy (b_url b)))
      \<and> (slugify (add_name b) = ''local'' \<or> id_taken (derive_id (add_name b) (now w)) devices)
     \<longrightarrow> status (post_devices cfg w c b devices) = 409
         \<and> persist devices (post_devices cfg w c b devices) = devices
         \<and> calls (post_devices cfg w c b devices) = [])
   \<and> status (put_devices ''local'' u devices) = 400
   \<and> persist devices (put_devices ''local'' u devices) = devices
   \<and> status (delete_devices ''local'' devices) = 400
   \<and> persist devices (delete_devices ''local'' devices) = devices
   \<and> (\<not> has_local devices \<longrightarrow> \<not> has_local (foldl run_op devices ops))"
  using post_devices_conflict[of b w devices cfg c] slug_local_taken[of "add_name b" "now w" devices]
    run_ops_no_local[of devices ops]
  by (auto simp: persist_def put_devices_def delete_devices_def respond_def)

lemma slug_of_Local: "slugify (add_name (http_add ''Local'' None)) = ''local''"
  by (simp add: add_name_def http_add_def or_else_def slug_defs string_defs)

lemma tokened_taken:
  "id_taken (derive_id (add_name (ssh_add ''Tokened'')) (now w_up)) [tokened]"
  by (simp add: add_name_def ssh_add_def or_else_def slug_defs string_defs id_taken_def tokened_def)

theorem local_never_persisted_witness:
  "status (post_devices cfg_none w_up add_req (http_add ''Local'' None) []) = 409
   \<and> persist [] (post_devices cfg_none w_up add_req (http_add ''Local'' None) []) = []
   \<and> status (post_devices cfg_none w_up add_req (ssh_add ''Tokened'') [tokened]) = 409
   \<and> persist [tokened] (post_devices cfg_none w_up add_req (ssh_add ''Tokened'') [tokened]) = [tokened]
   \<and> \<not> has_local (foldl run_op []
          [Add cfg_none w_up add_req (http_add ''Local'' None),
           Add cfg_none w_up add_req (http_add ''Tokened'' (Some '' secret-token '')),
           Update ''local'' no_update, Update ''tokened'' no_update,
           Delete ''local'', Delete ''tokened''])"
proof -
  have a: "truthy (b_sshHost (http_add ''Local'' None))
           \<or> (truthy (b_name (http_add ''Local'' None)) \<and> truthy (b_url (http_add ''Local'' None)))"
    by (simp add: http_add_def truthy_def)
  have b: "truthy (b_sshHost (ssh_add ''Tokened''))"
    by (simp add: ssh_add_def truthy_def)
  have c: "\<not> has_local []" by (simp add: has_local_def)
  show ?thesis
    using a b c slug_of_Local tokened_taken
      local_never_persisted [of "http_add ''Local'' None" w_up "[]" cfg_none add_req no_update
        "[Add cfg_none w_up add_req (http_add ''Local'' None),
           Add cfg_none w_up add_req (http_add ''Tokened'' (Some '' secret-token '')),
           Update ''local'' no_update, Update ''tokened'' no_update,
           Delete ''local'', Delete ''tokened'']"]
      local_never_persisted [of "ssh_add ''Tokened''" w_up "[tokened]" cfg_none add_req]
    by blast
qed

subsection \<open>A failed probe saves nothing\<close>

text \<open>
  C10. An add request that reaches its connectivity probe (its id is free) and whose
  probe fails (the SSH test exits non-zero or prints no \<open>ok\<close>; the HTTP probe is rejected
  or answered outside 200..299) is answered 502 without \<open>saveDevices\<close>, so \<open>devices.json\<close>
  is what it was; and whenever the answer is 502 the file is what it was.
\<close>

theorem failed_probe_saves_nothing:
  "(\<not> id_taken (derive_id (add_name b) (now w)) devices
      \<and> ((truthy (b_sshHost b) \<and> ssh_probe_failed w b)
         \<or> (\<not> truthy (b_sshHost b) \<and> truthy (b_name b) \<and> truthy (b_url b) \<and> http_probe_failed cfg w c b))
     \<longrightarrow> status (post_devices cfg w c b devices) = 502
         \<and> saved (post_devices cfg w c b devices) = None
         \<and> persist devices (post_devices cfg w c b devices) = devices)
   \<and> (status (post_devices cfg w c b devices) = 502 \<longrightarrow>
         persist devices (post_devices cfg w c b devices) = devices)"
proof -
  have h: "\<not> truthy (b_sshHost b) \<Longrightarrow> or_else (b_sshHost b) [] = []"
    by (auto simp: truthy_def or_else_def split: option.splits)
  have a: "truthy (b_sshHost b) \<Longrightarrow> \<not> id_taken (derive_id (add_name b) (now w)) devices \<Longrightarrow> ssh_probe_failed w b
     \<Longrightarrow> status (post_devices cfg w c b devices) = 502 \<and> saved (post_devices cfg w c b devices) = None"
    by (auto simp: post_devices_def post_devices_ssh_def ssh_probe_failed_def Let_def add_name_def)
  have b: "\<not> truthy (b_sshHost b) \<Longrightarrow> truthy (b_name b) \<Longrightarrow> truthy (b_url b)
     \<Longrightarrow> \<not> id_taken (derive_id (add_name b) (now w)) devices \<Longrightarrow> http_probe_failed cfg w c b
     \<Longrightarrow> status (post_devices cfg w c b devices) = 502 \<and> saved (post_devices cfg w c b devices) = None"
    by (auto simp: post_devices_def post_devices_http_def http_probe_failed_def Let_def add_name_def h
        split: fetch_result.splits)
  have c: "status (post_devices cfg w c b devices) = 502 \<Longrightarrow> saved (post_devices cfg w c b devices) = None"
    using post_devices_saved_status[of cfg w c b devices] by fastforce
  show ?thesis using a b c by (auto simp: persist_def)
qed

lemma mini_free: "\<not> id_taken (derive_id (add_name (http_add ''Mini'' None)) (now w_down)) [tokened]"
  by (simp add: add_name_def http_add_def or_else_def slug_defs string_defs id_taken_def tokened_def)

lemma macbook_free: "\<not> id_taken (derive_id (add_name (ssh_add ''macbook'')) (now w_down)) [tokened]"
  by (simp add: add_name_def ssh_add_def or_else_def slug_defs string_defs id_taken_def tokened_def)

theorem failed_probe_saves_nothing_witness:
  "status (post_devices cfg_none w_down add_req (http_add ''Mini'' None) [tokened]) = 502
   \<and> persist [tokened] (post_devices cfg_none w_down add_req (http_add ''Mini'' None) [tokened]) = [tokened]
   \<and> status (post_devices cfg_none w_down add_req (ssh_add ''macbook'') [tokened]) = 502
   \<and> persist [tokened] (post_devices cfg_none w_down add_req (ssh_add ''macbook'') [tokened]) = [tokened]"
proof -
  have a: "\<not> truthy (b_sshHost (http_add ''Mini'' None)) \<and> truthy (b_name (http_add ''Mini'' None))
           \<and> truthy (b_url (http_add ''Mini'' None))
           \<and> http_probe_failed cfg_none w_down add_req (http_add ''Mini'' None)"
    by (simp add: http_add_def truthy_def http_probe_failed_def w_down_def)
  have b: "truthy (b_sshHost (ssh_add ''macbook'')) \<and> ssh_probe_failed w_down (ssh_add ''macbook'')"
    by (simp add: ssh_add_def truthy_def ssh_probe_failed_def w_down_def)
  show ?thesis
    using a b mini_free macbook_free
      failed_probe_saves_nothing [of "http_add ''Mini'' None" w_down "[tokened]" cfg_none add_req]
      failed_probe_saves_nothing [of "ssh_add ''macbook''" w_down "[tokened]" cfg_none add_req]
    by blast
qed

subsection \<open>The proxy's gate\<close>

text \<open>
  C4. For a device id other than \<open>local\<close>: when no stored device has the id the answer is
  404, and when the device found is disabled the answer is 403; in both cases the handler
  has made no call to the outside (no \<open>ssh\<close> process, no \<open>fetch\<close>), has saved nothing, and
  its whole outcome is the same whatever the outside world, the library and the
  configuration are.
\<close>

theorem proxy_gate_before_adapters:
  "req_param c \<noteq> ''local'' \<longrightarrow>
     (find (\<lambda>d. d_id d = req_param c) devices = None \<longrightarrow>
        status (proxy cfg rt w app_fetch c devices) = 404
        \<and> calls (proxy cfg rt w app_fetch c devices) = []
        \<and> saved (proxy cfg rt w app_fetch c devices) = None
        \<and> proxy cfg rt w app_fetch c devices = proxy cfg' rt' w' app_fetch' c devices)
   \<and> (\<forall>device. find (\<lambda>d. d_id d = req_param c) devices = Some device \<and> \<not> d_enabled device \<longrightarrow>
        status (proxy cfg rt w app_fetch c devices) = 403
        \<and> calls (proxy cfg rt w app_fetch c devices) = []
        \<and> saved (proxy cfg rt w app_fetch c devices) = None
        \<and> proxy cfg rt w app_fetch c devices = proxy cfg' rt' w' app_fetch' c devices)"
  by (simp add: proxy_def respond_def)

subsection \<open>The forwarded token\<close>

lemma dropWhile_all_iff: "(\<forall>c\<in>set (dropWhile P s). P c) \<longleftrightarrow> dropWhile P s = []"
proof
  assume a: "\<forall>c\<in>set (dropWhile P s). P c"
  show "dropWhile P s = []"
  proof (rule ccontr)
    assume ne: "dropWhile P s \<noteq> []"
    then have "\<not> P (hd (dropWhile P s))" by (rule hd_dropWhile)
    moreover from ne have "hd (dropWhile P s) \<in> set (dropWhile P s)" by simp
    ultimately show False using a by blast
  qed
next
  assume "dropWhile P s = []"
  then show "\<forall>c\<in>set (dropWhile P s). P c" by (simp only: list.set ball_empty)
qed

lemma trim_Nil_iff: "trim s = [] \<longleftrightarrow> (\<forall>c\<in>set s. is_space c)"
proof -
  have "trim s = [] \<longleftrightarrow> (\<forall>c\<in>set (dropWhile is_space s). is_space c)"
    by (simp add: trim_def dropWhile_eq_Nil_conv)
  also have "\<dots> \<longleftrightarrow> dropWhile is_space s = []" by (rule dropWhile_all_iff)
  also have "\<dots> \<longleftrightarrow> (\<forall>c\<in>set s. is_space c)" by (simp add: dropWhile_eq_Nil_conv)
  finally show ?thesis .
qed

lemma last_trim: "trim s \<noteq> [] \<Longrightarrow> \<not> is_space (last (trim s))"
proof -
  assume ne: "trim s \<noteq> []"
  let ?u = "dropWhile is_space (rev (dropWhile is_space s))"
  from ne have u: "?u \<noteq> []" by (simp add: trim_def)
  then have "\<not> is_space (hd ?u)" by (rule hd_dropWhile)
  moreover have "last (trim s) = hd ?u" using u by (simp add: trim_def last_rev)
  ultimately show ?thesis by simp
qed

lemma to_lower_space: "to_lower_char c = CHR '' '' \<Longrightarrow> c = CHR '' ''"
  by (auto simp: to_lower_char_def split: option.splits if_splits)

lemma bearer_token_nonempty:
  assumes "prefix ''bearer '' (toLowerCase (trim x))"
  shows "trim (drop 7 (trim x)) \<noteq> []"
proof -
  let ?a = "trim x"
  from assms have t: "take 7 (toLowerCase ?a) = ''bearer ''"
    by (auto simp: prefix_def)
  then have m: "map to_lower_char (take 7 ?a) = ''bearer ''"
    by (simp add: toLowerCase_def take_map)
  have "length (map to_lower_char (take 7 ?a)) = length ''bearer ''"
    by (simp only: m)
  then have l7: "length (take 7 ?a) = 7" by simp
  then have ne: "take 7 ?a \<noteq> []" by auto
  from m have "last (map to_lower_char (take 7 ?a)) = CHR '' ''" by (simp only: m) simp
  then have "to_lower_char (last (take 7 ?a)) = CHR '' ''" using ne by (simp add: last_map)
  then have sp: "last (take 7 ?a) = CHR '' ''" by (rule to_lower_space)
  have ane: "?a \<noteq> []" using l7 by auto
  have d: "drop 7 ?a \<noteq> []"
  proof
    assume "drop 7 ?a = []"
    then have "take 7 ?a = ?a" by simp
    with sp have "last ?a = CHR '' ''" by simp
    then have "is_space (last ?a)" by (simp add: is_space_def)
    with last_trim[OF ane] show False by simp
  qed
  then have "last (drop 7 ?a) = last ?a" by simp
  with last_trim[OF ane] have "\<not> is_space (last (drop 7 ?a))" by simp
  moreover have "last (drop 7 ?a) \<in> set (drop 7 ?a)" using d by (rule last_in_set)
  ultimately show ?thesis by (auto simp: trim_Nil_iff)
qed

lemma getToken_bearer:
  "prefix ''bearer '' (toLowerCase (trim (header c ''authorization''))) \<Longrightarrow>
     getTokenFromRequest c = Some (trim (drop 7 (trim (header c ''authorization''))))"
  by (simp add: getTokenFromRequest_def Let_def bearer_token_nonempty)

lemma normalizeBearer_form:
  "prefix ''Bearer '' (normalizeBearer t) \<and> (normalizeBearer t = t \<or> normalizeBearer t = ''Bearer '' @ t)"
  by (simp add: normalizeBearer_def)

text \<open>
  C5, as the code has it. \<open>getForwardAuthHeader\<close> resolves in strict priority: the device's
  own token when it is not blank, else the caller's incoming token, else the local admin
  token, else nothing; the incoming token is that of a Bearer \<open>Authorization\<close> header
  (which always yields one), else the custom header, else the query parameter; the winner
  is in Bearer form (it starts with \<open>Bearer \<close>, as it was or with the prefix added). The
  probes of add and health send exactly the resolved header, or none. The proxy sets the
  resolved header over the caller's headers, and when nothing is resolved it leaves the
  caller's own \<open>Authorization\<close> header, if any, in place.
\<close>

theorem forward_auth_priority:
  "(\<not> blank stored \<longrightarrow>
      getForwardAuthHeader cfg c stored = Some (normalizeBearer (trim (the stored))))
   \<and> (blank stored \<longrightarrow>
        (\<forall>t. getTokenFromRequest c = Some t \<longrightarrow> getForwardAuthHeader cfg c stored = Some (normalizeBearer t))
        \<and> (getTokenFromRequest c = None \<and> ADMIN_API_TOKEN cfg \<noteq> [] \<longrightarrow>
             getForwardAuthHeader cfg c stored = Some (normalizeBearer (ADMIN_API_TOKEN cfg)))
        \<and> (getTokenFromRequest c = None \<and> ADMIN_API_TOKEN cfg = [] \<longrightarrow>
             getForwardAuthHeader cfg c stored = None))
   \<and> (prefix ''bearer '' (toLowerCase (trim (header c ''authorization''))) \<longrightarrow>
        getTokenFromRequest c = Some (trim (drop 7 (trim (header c ''authorization'')))))
   \<and> (\<not> prefix ''bearer '' (toLowerCase (trim (header c ''authorization''))) \<longrightarrow>
        (trim (header c ''x-file-explorer-token'') \<noteq> [] \<longrightarrow>
           getTokenFromRequest c = Some (trim (header c ''x-file-explorer-token'')))
        \<and> (trim (header c ''x-file-explorer-token'') = [] \<and> trim (searchParam c ''token'') \<noteq> [] \<longrightarrow>
             getTokenFromRequest c = Some (trim (searchParam c ''token'')))
        \<and> (trim (header c ''x-file-explorer-token'') = [] \<and> trim (searchParam c ''token'') = [] \<longrightarrow>
             getTokenFromRequest c = None))
   \<and> prefix ''Bearer '' (normalizeBearer t)
   \<and> (normalizeBearer t = t \<or> normalizeBearer t = ''Bearer '' @ t)
   \<and> f_headers (probe_req base h) ''authorization'' = h
   \<and> f_headers (proxy_request cfg c device) ''authorization''
        = (case getForwardAuthHeader cfg c (d_authToken device) of
             Some v \<Rightarrow> Some v
           | None \<Rightarrow> req_headers c ''authorization'')"
proof -
  have a: "\<not> blank stored \<Longrightarrow>
      getForwardAuthHeader cfg c stored = Some (normalizeBearer (trim (the stored)))"
    by (cases stored) (auto simp: blank_def getForwardAuthHeader_def Let_def trim_def)
  have b: "blank stored \<Longrightarrow> getForwardAuthHeader cfg c stored =
      (case getTokenFromRequest c of Some t \<Rightarrow> Some (normalizeBearer t)
       | None \<Rightarrow> if ADMIN_API_TOKEN cfg \<noteq> [] then Some (normalizeBearer (ADMIN_API_TOKEN cfg)) else None)"
    by (simp add: blank_def getForwardAuthHeader_def Let_def)
  have c: "\<not> prefix ''bearer '' (toLowerCase (trim (header c ''authorization''))) \<Longrightarrow>
     getTokenFromRequest c =
       (if trim (header c ''x-file-explorer-token'') \<noteq> [] then Some (trim (header c ''x-file-explorer-token''))
        else if trim (searchParam c ''token'') \<noteq> [] then Some (trim (searchParam c ''token''))
        else None)"
    by (simp add: getTokenFromRequest_def Let_def)
  have d: "f_headers (probe_req base h) ''authorization'' = h"
    by (cases h) (simp_all add: probe_req_def)
  have e: "f_headers (proxy_request cfg c device) ''authorization''
        = (case getForwardAuthHeader cfg c (d_authToken device) of
             Some v \<Rightarrow> Some v
           | None \<Rightarrow> req_headers c ''authorization'')"
    by (simp add: proxy_request_def Let_def split: option.splits)
  show ?thesis
    using a b c d e getToken_bearer[of c] normalizeBearer_form[of t]
    by (simp split: option.splits)
qed

subsection \<open>Duplicates\<close>

lemma replace_first_prefix: "replace_first p r (p @ s) = r @ s"
proof (cases "p @ s")
  case Nil
  then show ?thesis by simp
next
  case (Cons a l)
  have "prefix p (p @ s)" by simp
  then have "prefix p (a # l)" by (simp only: Cons)
  then have "replace_first p r (a # l) = r @ drop (length p) (a # l)" by simp
  then have "replace_first p r (p @ s) = r @ drop (length p) (p @ s)" by (simp only: Cons)
  then show ?thesis by simp
qed

lemma below_ten: "k < 10 \<Longrightarrow> k = 0 \<or> k = 1 \<or> k = 2 \<or> k = 3 \<or> k = 4 \<or> k = 5 \<or> k = 6 \<or> k = 7 \<or> k = 8 \<or> k = (9::nat)"
  by arith

lemma free_copy_first:
  assumes "\<not> exists (path_join dir (copy_name base ext (k + n)))"
    and "\<forall>j<n. exists (path_join dir (copy_name base ext (k + j)))"
  shows "free_copy exists dir base ext k = Some (path_join dir (copy_name base ext (k + n)))"
  using assms
proof (induction n arbitrary: k)
  case 0
  then show ?case by (subst free_copy.simps) simp
next
  case (Suc n)
  from Suc.prems(2) have e: "exists (path_join dir (copy_name base ext k))" by force
  have "free_copy exists dir base ext (Suc k) = Some (path_join dir (copy_name base ext (Suc k + n)))"
  proof (rule Suc.IH)
    show "\<not> exists (path_join dir (copy_name base ext (Suc k + n)))" using Suc.prems(1) by simp
    show "\<forall>j<n. exists (path_join dir (copy_name base ext (Suc k + j)))"
    proof (intro allI impI)
      fix j assume "j < n"
      then have "Suc j < Suc n" by simp
      with Suc.prems(2) have "exists (path_join dir (copy_name base ext (k + Suc j)))" by blast
      then show "exists (path_join dir (copy_name base ext (Suc k + j)))" by simp
    qed
  qed
  with e show ?case by (subst free_copy.simps) simp
qed

lemma free_copy_returns:
  assumes "\<exists>m. \<not> exists (path_join dir (copy_name base ext m))"
  shows "\<exists>n. free_copy exists dir base ext 0 = Some (path_join dir (copy_name base ext n))
            \<and> \<not> exists (path_join dir (copy_name base ext n))
            \<and> (\<forall>j<n. exists (path_join dir (copy_name base ext j)))"
proof -
  define P where "P = (\<lambda>m. \<not> exists (path_join dir (copy_name base ext m)))"
  from assms have "\<exists>m. P m" by (simp add: P_def)
  then obtain n where n: "P n" "\<forall>j<n. \<not> P j"
    using exists_least_iff[of P] by blast
  have a: "\<not> exists (path_join dir (copy_name base ext (0 + n)))"
    using n(1) by (simp add: P_def)
  have b: "\<forall>j<n. exists (path_join dir (copy_name base ext (0 + j)))"
    using n(2) by (simp add: P_def)
  have "free_copy exists dir base ext 0 = Some (path_join dir (copy_name base ext (0 + n)))"
    using a b by (rule free_copy_first)
  with a b show ?thesis by (intro exI[of _ n]) simp
qed

(* digits *)

lemma digit_roundtrip: "k < 10 \<Longrightarrow> digit_val (to_lower_char (digit_char k)) = k"
proof -
  assume "k < 10"
  from below_ten[OF this] show ?thesis
    by (elim disjE) (simp_all add: digit_char_def digit_val_def to_lower_char_def)
qed

lemma digits_value_snoc: "digits_value r (ds @ [d]) = digits_value r ds * r + digit_val (to_lower_char d)"
  by (simp add: digits_value_def)

lemma digits_value_show: "digits_value 10 (show_nat n) = n"
proof (induction n rule: show_nat.induct)
  case (1 n)
  show ?case
  proof (cases "n < 10")
    case True
    then show ?thesis
      by (subst show_nat.simps) (simp add: digits_value_def digit_roundtrip)
  next
    case False
    with 1 have "digits_value 10 (show_nat (n div 10)) = n div 10" by simp
    with False show ?thesis
      by (subst show_nat.simps) (simp add: digits_value_snoc digit_roundtrip)
  qed
qed

lemma show_nat_inj: "show_nat a = show_nat b \<Longrightarrow> a = b"
proof -
  assume e: "show_nat a = show_nat b"
  have "a = digits_value 10 (show_nat a)" by (simp only: digits_value_show)
  also have "\<dots> = digits_value 10 (show_nat b)" by (simp only: e)
  also have "\<dots> = b" by (simp only: digits_value_show)
  finally show ?thesis .
qed

lemma digit_char_is_digit: "k < 10 \<Longrightarrow> is_digit (digit_char k)"
proof -
  assume "k < 10"
  from below_ten[OF this] show ?thesis
    by (elim disjE) (simp_all add: digit_char_def is_digit_def)
qed

lemma show_nat_digits: "\<forall>c\<in>set (show_nat n). is_digit c"
proof (induction n rule: show_nat.induct)
  case (1 n)
  show ?case
  proof (cases "n < 10")
    case True
    then show ?thesis by (subst show_nat.simps) (simp add: digit_char_is_digit)
  next
    case False
    with 1 show ?thesis by (subst show_nat.simps) (simp add: digit_char_is_digit)
  qed
qed

lemma show_nat_nonempty: "show_nat n \<noteq> []"
  by (subst show_nat.simps) simp

lemma split_on_nonempty: "split_on c s \<noteq> []"
  by (induction s) (auto split: list.splits)

lemma split_on_no_sep: "c \<notin> set s \<Longrightarrow> split_on c s = [s]"
  by (induction s) auto

lemma split_on_append: "split_on c (a @ c # b) = split_on c a @ split_on c b"
proof (induction a)
  case Nil
  then show ?case by simp
next
  case (Cons x xs)
  obtain p ps where p: "split_on c xs = p # ps"
    using split_on_nonempty[of c xs] by (cases "split_on c xs") auto
  with Cons show ?case by simp
qed

lemma join_with_snoc:
  "join_with sep (ys @ [n]) = (if ys = [] then n else join_with sep ys @ sep @ n)"
  by (induction sep ys rule: join_with.induct) auto

lemma norm_step_leaf: "leaf name \<Longrightarrow> norm_step b acc name = name # acc"
  by (simp add: leaf_def)

lemma normalize_segments_leaf:
  assumes "leaf name"
  shows "normalize_segments b (dir @ CHR ''/'' # name) = normalize_segments b dir @ [name]"
proof -
  have "split_on CHR ''/'' (dir @ CHR ''/'' # name) = split_on CHR ''/'' dir @ [name]"
    using assms by (simp add: split_on_append split_on_no_sep leaf_def)
  then show ?thesis
    using assms by (simp add: normalize_segments_def norm_step_leaf del: norm_step.simps)
qed

lemma leaf_last: "leaf name \<Longrightarrow> last name \<noteq> CHR ''/''"
proof
  assume l: "leaf name" and e: "last name = CHR ''/''"
  from l have "name \<noteq> []" by (simp add: leaf_def)
  then have "last name \<in> set name" by (rule last_in_set)
  then have "CHR ''/'' \<in> set name" by (simp only: e)
  with l show False by (simp add: leaf_def)
qed

lemma path_join_leaf:
  assumes "leaf name"
  shows "path_join dir name = join_prefix dir @ name"
proof (cases "dir = []")
  case True
  have s: "split_on CHR ''/'' name = [name]" using assms by (simp add: split_on_no_sep leaf_def)
  have na: "\<not> isAbsolute name" using assms by (cases name) (auto simp: isAbsolute_def leaf_def)
  have nl: "last name \<noteq> CHR ''/''" using assms by (rule leaf_last)
  have "normalizeString True name = name"
    using assms by (simp add: normalizeString_def normalize_segments_def s norm_step_leaf del: norm_step.simps)
  with True na nl assms show ?thesis
    by (simp add: path_join_def path_normalize_def join_prefix_def Let_def leaf_def)
next
  case False
  let ?j = "dir @ CHR ''/'' # name"
  let ?abs = "isAbsolute dir"
  have ab: "isAbsolute ?j = ?abs" using False by (cases dir) (auto simp: isAbsolute_def)
  have nl: "last ?j \<noteq> CHR ''/''" using leaf_last[OF assms] assms by (simp add: leaf_def)
  have n: "normalizeString (\<not> ?abs) ?j
        = (if normalize_segments (\<not> ?abs) dir = [] then name
           else join_with ''/'' (normalize_segments (\<not> ?abs) dir) @ ''/'' @ name)"
    by (simp only: normalizeString_def normalize_segments_leaf[OF assms] join_with_snoc)
  have ne: "normalizeString (\<not> ?abs) ?j \<noteq> []"
    using assms by (simp add: n leaf_def)
  have "path_join dir name = path_normalize ?j"
    using False assms by (simp add: path_join_def leaf_def)
  also have "\<dots> = (if ?abs then ''/'' else []) @ normalizeString (\<not> ?abs) ?j"
    using ne nl ab by (simp add: path_normalize_def Let_def)
  also have "\<dots> = join_prefix dir @ name"
    using False by (simp add: n join_prefix_def)
  finally show ?thesis .
qed

lemma is_digit_not_slash: "is_digit c \<Longrightarrow> c \<noteq> CHR ''/''"
  by (auto simp: is_digit_def)

lemma copy_name_leaf:
  assumes "CHR ''/'' \<notin> set base" and "CHR ''/'' \<notin> set ext"
  shows "leaf (copy_name base ext k)"
proof -
  have d: "CHR ''/'' \<notin> set (show_nat (Suc k))"
    using show_nat_digits[of "Suc k"] is_digit_not_slash by blast
  have sp: "CHR '' '' \<in> set (copy_name base ext k)" by (simp add: copy_name_def)
  then have "copy_name base ext k \<noteq> [] \<and> copy_name base ext k \<noteq> ''.'' \<and> copy_name base ext k \<noteq> ''..''"
    by auto
  moreover have "CHR ''/'' \<notin> set (copy_name base ext k)"
    using assms d by (simp add: copy_name_def)
  ultimately show ?thesis by (simp add: leaf_def)
qed

lemma copy_name_inj: "copy_name base ext (Suc a) = copy_name base ext (Suc b) \<Longrightarrow> a = b"
  using show_nat_inj[of "Suc (Suc a)" "Suc (Suc b)"] by (simp add: copy_name_def)

lemma some_copy_free:
  assumes "finite {p. exists p}" and "CHR ''/'' \<notin> set base" and "CHR ''/'' \<notin> set ext"
  shows "\<exists>m. \<not> exists (path_join dir (copy_name base ext m))"
proof (rule ccontr)
  assume "\<not> ?thesis"
  then have all: "\<And>m. exists (path_join dir (copy_name base ext m))" by blast
  define f where "f = (\<lambda>m. path_join dir (copy_name base ext (Suc m)))"
  have "inj f"
  proof (rule injI)
    fix a b assume "f a = f b"
    then have "join_prefix dir @ copy_name base ext (Suc a) = join_prefix dir @ copy_name base ext (Suc b)"
      by (simp add: f_def path_join_leaf[OF copy_name_leaf[OF assms(2,3)]])
    then show "a = b" using copy_name_inj by simp
  qed
  then have "infinite (range f)" using finite_imageD[of f UNIV] infinite_UNIV_nat by blast
  moreover have "range f \<subseteq> {p. exists p}" using all by (auto simp: f_def)
  ultimately show False using assms(1) finite_subset by blast
qed

lemma last_component_no_slash: "CHR ''/'' \<notin> set (last_component p)"
  using set_takeWhileD[of "CHR ''/''" "\<lambda>c. c \<noteq> CHR ''/''"] by (auto simp: last_component_def)

lemma path_extname_no_slash: "CHR ''/'' \<notin> set (path_extname p)"
proof -
  have "set (takeWhile (\<lambda>c. c \<noteq> CHR ''.'') (rev (last_component p))) \<subseteq> set (last_component p)"
    using set_takeWhileD by fastforce
  then show ?thesis
    using last_component_no_slash[of p] by (auto simp: path_extname_def Let_def)
qed

lemma path_basename_no_slash: "CHR ''/'' \<notin> set (path_basename p e)"
  using last_component_no_slash[of p] in_set_takeD[of "CHR ''/''" _ "last_component p"]
  by (auto simp: path_basename_def Let_def)

lemma split_on_duplicate: "hd (split_on CHR ''?'' ''duplicate'') = ''duplicate''"
  by simp

lemma ssh_duplicate_calls:
  assumes "req_param c \<noteq> ''local''"
    and "find (\<lambda>d. d_id d = req_param c) devices = Some device"
    and "d_enabled device" and "truthy (d_sshHost device)"
    and "req_method c = ''POST''"
    and "req_path c = ''/api/d/'' @ req_param c @ ''/duplicate''"
    and "req_json c = Some j"
  shows "calls (proxy cfg rt w app_fetch c devices)
           = [SshExec (or_else (d_sshHost device) [])
                (''cp -r '' @ json_stringify (or_else (d_sshRoot device) ''/'' @ ''/'' @ tmpl (j ''path''))
                 @ '' '' @ json_stringify (ssh_duplicate_dest (or_else (d_sshRoot device) ''/'' @ ''/'' @ tmpl (j ''path''))))
                15000]"
proof -
  have p: "proxy cfg rt w app_fetch c devices = ssh_branch rt w c device"
    using assms(1-4) by (simp add: proxy_def)
  have "replace_first ((''/api/d/'' @ req_param c) @ ''/'') [] (((''/api/d/'' @ req_param c) @ ''/'') @ ''duplicate'') = [] @ ''duplicate''"
    by (rule replace_first_prefix)
  then have s: "hd (split_on CHR ''?'' (replace_first (''/api/d/'' @ req_param c @ ''/'') [] (req_path c))) = ''duplicate''"
    using assms(6) split_on_duplicate by simp
  have "ssh_branch rt w c device = ssh_write rt w (or_else (d_sshHost device) []) (or_else (d_sshRoot device) ''/'') ''duplicate'' j"
    unfolding ssh_branch_def Let_def s using assms(5,7) by simp
  then show ?thesis
    by (simp add: p ssh_write_def run_remote_def Let_def)
qed

lemma api_duplicate_local:
  assumes "finite {p. fs_exists fs p}"
    and "req_json c = Some j" and "j ''path'' = Some srcPath"
    and "resolveSafePath ROOT_DIR cwd srcPath = Some safeSrc"
  shows "\<exists>n out. api_duplicate fs ROOT_DIR cwd c = Some out
           \<and> \<not> fs_exists fs (copy_path safeSrc n)
           \<and> (\<forall>i<n. fs_exists fs (copy_path safeSrc i))
           \<and> set (calls out) \<subseteq> {CpSync safeSrc (copy_path safeSrc n), CopyFileSync safeSrc (copy_path safeSrc n)}
           \<and> (status out = 200 \<longrightarrow> body out = SuccessPath (path_relative cwd ROOT_DIR (copy_path safeSrc n))
                                      \<and> calls out \<noteq> [])"
proof -
  let ?ext = "path_extname safeSrc"
  let ?base = "path_basename safeSrc ?ext"
  let ?dir = "path_dirname safeSrc"
  have "\<exists>m. \<not> fs_exists fs (path_join ?dir (copy_name ?base ?ext m))"
    using assms(1) path_basename_no_slash path_extname_no_slash by (rule some_copy_free)
  then obtain n where n: "free_copy (fs_exists fs) ?dir ?base ?ext 0 = Some (path_join ?dir (copy_name ?base ?ext n))"
      "\<not> fs_exists fs (path_join ?dir (copy_name ?base ?ext n))"
      "\<forall>i<n. fs_exists fs (path_join ?dir (copy_name ?base ?ext i))"
    using free_copy_returns[of "fs_exists fs" ?dir ?base ?ext] by blast
  have e: "api_duplicate fs ROOT_DIR cwd c = Some
     (case fs_stat fs safeSrc of
        None \<Rightarrow> respond 500 (ErrorBody ENOENT)
      | Some st \<Rightarrow>
         (let cs = [if st_isDirectory st then CpSync safeSrc (copy_path safeSrc n)
                    else CopyFileSync safeSrc (copy_path safeSrc n)]
          in case fs_copy_error fs safeSrc (copy_path safeSrc n) of
               Some msg \<Rightarrow> \<lparr> status = 500, body = ErrorBody (if msg \<noteq> [] then msg else ''Failed to duplicate''),
                              saved = None, calls = cs \<rparr>
             | None \<Rightarrow> \<lparr> status = 200, body = SuccessPath (path_relative cwd ROOT_DIR (copy_path safeSrc n)),
                          saved = None, calls = cs \<rparr>))"
    using assms(2-4) n(1) unfolding copy_path_def by (simp add: api_duplicate_def Let_def)
  show ?thesis
    apply (rule exI[of _ n])
    apply (simp only: e)
    using n(2,3)
    by (auto simp: copy_path_def respond_def Let_def split: option.splits)
qed

subsection \<open>Sorting\<close>

lemma insert_by_mset: "mset (insert_by cmp x xs) = add_mset x (mset xs)"
  by (induction xs) auto

lemma js_sort_mset: "mset (js_sort cmp xs) = mset xs"
  by (induction xs) (auto simp: js_sort_def insert_by_mset)

lemma js_sort_set: "set (js_sort cmp xs) = set xs"
  using js_sort_mset[of cmp xs] by (metis set_mset_mset)

lemma insert_by_map:
  "insert_by cmp (f x) (map f ys) = map f (insert_by (\<lambda>a b. cmp (f a) (f b)) x ys)"
  by (induction ys) auto

lemma js_sort_map: "js_sort cmp (map f xs) = map f (js_sort (\<lambda>a b. cmp (f a) (f b)) xs)"
  by (induction xs) (auto simp: js_sort_def insert_by_map)

lemma insert_by_set: "set (insert_by cmp x xs) = insert x (set xs)"
  by (induction xs) auto

lemma insert_by_sorted:
  assumes "cmp_total_on cmp S" and "cmp_trans_on cmp S" and "x \<in> S" and "set xs \<subseteq> S"
    and "sorted_wrt (\<lambda>a b. cmp a b \<le> 0) xs"
  shows "sorted_wrt (\<lambda>a b. cmp a b \<le> 0) (insert_by cmp x xs)"
  using assms(4,5)
proof (induction xs)
  case Nil
  then show ?case by simp
next
  case (Cons y ys)
  show ?case
  proof (cases "cmp x y \<le> 0")
    case True
    have "\<forall>z\<in>set ys. cmp x z \<le> 0"
    proof
      fix z assume z: "z \<in> set ys"
      with Cons.prems have "cmp y z \<le> 0" by simp
      moreover have "y \<in> S" "z \<in> S" using Cons.prems(1) z by auto
      ultimately show "cmp x z \<le> 0"
        using True assms(2,3) unfolding cmp_trans_on_def by blast
    qed
    with True Cons.prems show ?thesis by simp
  next
    case False
    have yS: "y \<in> S" using Cons.prems(1) by simp
    from False have yx: "cmp y x \<le> 0"
      using assms(1,3) yS unfolding cmp_total_on_def by blast
    have "sorted_wrt (\<lambda>a b. cmp a b \<le> 0) (insert_by cmp x ys)"
      using Cons by simp
    moreover have "\<forall>z\<in>set (insert_by cmp x ys). cmp y z \<le> 0"
      using yx Cons.prems(2) by (simp add: insert_by_set)
    ultimately show ?thesis using False by simp
  qed
qed

lemma js_sort_sorted:
  assumes "cmp_total_on cmp S" and "cmp_trans_on cmp S" and "set xs \<subseteq> S"
  shows "sorted_wrt (\<lambda>a b. cmp a b \<le> 0) (js_sort cmp xs)"
  using assms(3)
proof (induction xs)
  case Nil
  then show ?case by (simp add: js_sort_def)
next
  case (Cons x xs)
  then have ih: "sorted_wrt (\<lambda>a b. cmp a b \<le> 0) (js_sort cmp xs)" by simp
  have sub: "set (js_sort cmp xs) \<subseteq> S" using Cons.prems by (simp add: js_sort_set)
  have xS: "x \<in> S" using Cons.prems by simp
  have "sorted_wrt (\<lambda>a b. cmp a b \<le> 0) (insert_by cmp x (js_sort cmp xs))"
    by (rule insert_by_sorted[OF assms(1,2) xS sub ih])
  moreover have "js_sort cmp (x # xs) = insert_by cmp x (js_sort cmp xs)"
    by (simp add: js_sort_def)
  ultimately show ?case by (simp only:)
qed

lemma sorted_unique:
  assumes "cmp_antisym_on cmp S" and "set xs \<subseteq> S"
    and "sorted_wrt (\<lambda>a b. cmp a b \<le> 0) xs" and "sorted_wrt (\<lambda>a b. cmp a b \<le> 0) ys"
    and "mset xs = mset ys"
  shows "xs = ys"
  using assms(2-5)
proof (induction xs arbitrary: ys)
  case Nil
  then show ?case by simp
next
  case (Cons x xs)
  from Cons.prems(4) obtain y ys' where ys: "ys = y # ys'"
    by (cases ys) auto
  have sets: "set (x # xs) = set ys" using Cons.prems(4) by (metis set_mset_mset)
  have xy: "x = y"
  proof (rule ccontr)
    assume ne: "x \<noteq> y"
    have "x \<in> set ys'" using sets ne ys by auto
    then have 1: "cmp y x \<le> 0" using Cons.prems(3) ys by simp
    have "y \<in> set xs" using sets ne ys by auto
    then have 2: "cmp x y \<le> 0" using Cons.prems(2) by simp
    have "x \<in> S" "y \<in> S" using Cons.prems(1) sets ys by auto
    with 1 2 assms(1) have "x = y" unfolding cmp_antisym_on_def by blast
    with ne show False by simp
  qed
  have "mset xs = mset ys'" using Cons.prems(4) ys xy by simp
  moreover have "set xs \<subseteq> S" using Cons.prems(1) by simp
  moreover have "sorted_wrt (\<lambda>a b. cmp a b \<le> 0) xs" using Cons.prems(2) by simp
  moreover have "sorted_wrt (\<lambda>a b. cmp a b \<le> 0) ys'" using Cons.prems(3) ys by simp
  ultimately have "xs = ys'" using Cons.IH by blast
  with xy ys show ?case by simp
qed

lemma js_sort_perm:
  assumes "cmp_total_on cmp S" and "cmp_trans_on cmp S" and "cmp_antisym_on cmp S"
    and "set xs \<subseteq> S" and "mset xs = mset ys"
  shows "js_sort cmp xs = js_sort cmp ys"
proof -
  have ys: "set ys \<subseteq> S" using assms(4,5) by (metis set_mset_mset)
  show ?thesis
  proof (rule sorted_unique[OF assms(3)])
    show "set (js_sort cmp xs) \<subseteq> S" using assms(4) by (simp add: js_sort_set)
    show "sorted_wrt (\<lambda>a b. cmp a b \<le> 0) (js_sort cmp xs)"
      using assms(1,2,4) by (rule js_sort_sorted)
    show "sorted_wrt (\<lambda>a b. cmp a b \<le> 0) (js_sort cmp ys)"
      using assms(1,2) ys by (rule js_sort_sorted)
    show "mset (js_sort cmp xs) = mset (js_sort cmp ys)"
      using assms(5) by (simp add: js_sort_mset)
  qed
qed

subsection \<open>Reading the remote listing\<close>

lemma is_digit_props: "is_digit c \<Longrightarrow> \<not> is_space c \<and> c \<noteq> CHR ''-'' \<and> c \<noteq> CHR ''+'' \<and> c \<noteq> CHR ''x''
    \<and> c \<noteq> CHR ''X'' \<and> c \<noteq> CHR ''|'' \<and> c \<noteq> CHR 0x0A"
  by (auto simp: is_digit_def is_space_def)

lemma takeWhile_all: "\<forall>c\<in>set s. P c \<Longrightarrow> takeWhile P s = s"
  by (induction s) auto

lemma parseInt_show_nat: "parseInt (show_nat n) = Some (int n)"
proof -
  let ?s = "show_nat n"
  have dg: "\<forall>c\<in>set ?s. is_digit c" by (rule show_nat_digits)
  have ne: "?s \<noteq> []" by (rule show_nat_nonempty)
  then obtain c cs where s: "?s = c # cs" by (cases ?s) auto
  with dg have c: "is_digit c" by simp
  have t: "dropWhile is_space ?s = ?s" using s c is_digit_props by simp
  have sign: "hd ?s \<noteq> CHR ''-'' \<and> hd ?s \<noteq> CHR ''+''" using s c is_digit_props by simp
  have nohex: "\<not> prefix ''0x'' ?s \<and> \<not> prefix ''0X'' ?s"
  proof (cases cs)
    case Nil
    with s show ?thesis by simp
  next
    case (Cons d ds)
    with s dg have "is_digit d" by simp
    then have "d \<noteq> CHR ''x'' \<and> d \<noteq> CHR ''X''" using is_digit_props by blast
    with s Cons show ?thesis by auto
  qed
  have tw: "takeWhile is_digit ?s = ?s" using dg by (rule takeWhile_all)
  show ?thesis
    unfolding parseInt_def Let_def t
    using sign nohex ne by (simp add: tw digits_value_show)
qed

lemma type_word_chars: "CHR ''|'' \<notin> set (type_word bsd d) \<and> CHR 0x0A \<notin> set (type_word bsd d)
    \<and> type_word bsd d \<noteq> [] \<and> \<not> is_space (hd (type_word bsd d))"
  by (simp add: type_word_def is_space_def)

lemma show_nat_no_bar: "CHR ''|'' \<notin> set (show_nat n) \<and> CHR 0x0A \<notin> set (show_nat n)"
  using show_nat_digits[of n] is_digit_props by blast

lemma split_stat_line:
  assumes "CHR ''|'' \<notin> set (e_name e)"
  shows "split_on CHR ''|'' (stat_line bsd e)
           = [type_word bsd (e_isDir e), e_name e, show_nat (e_size e), show_nat (e_mtime e)]"
proof -
  have "stat_line bsd e = type_word bsd (e_isDir e) @ CHR ''|'' # (e_name e @ CHR ''|'' #
          (show_nat (e_size e) @ CHR ''|'' # show_nat (e_mtime e)))"
    by (simp add: stat_line_def)
  then show ?thesis
    using assms type_word_chars[of bsd "e_isDir e"] show_nat_no_bar
    by (simp add: split_on_append split_on_no_sep)
qed

lemma type_word_isDir:
  "(type_word bsd d = ''Directory'' \<or> type_word bsd d = ''directory'') = d"
  by (simp add: type_word_def)

lemma ssh_item_of_stat_line:
  assumes "CHR ''|'' \<notin> set (e_name e)" and "e_mtime e \<le> 8640000000000"
  shows "ssh_item_of_line requestedPath (stat_line bsd e) = Inr (ssh_item requestedPath e)"
proof -
  have d: "date_of_seconds (show_nat (e_mtime e)) = Some (int (e_mtime e) * 1000)"
    using assms(2) by (simp add: date_of_seconds_def parseInt_show_nat)
  show ?thesis
    unfolding ssh_item_of_line_def split_stat_line[OF assms(1)] Let_def
    by (simp add: d parseInt_show_nat type_word_isDir ssh_item_def)
qed

lemma collect_Inr: "collect (map Inr xs) = Inr xs"
  by (induction xs) auto

lemma concat_lines: "ls \<noteq> [] \<Longrightarrow> concat (map (\<lambda>l. l @ [c]) ls) = join_with [c] ls @ [c]"
  by (induction "[c]" ls rule: join_with.induct) auto

lemma split_join:
  "ls \<noteq> [] \<Longrightarrow> \<forall>l\<in>set ls. c \<notin> set l \<Longrightarrow> split_on c (join_with [c] ls) = ls"
proof (induction "[c]" ls rule: join_with.induct)
  case 1
  then show ?case by simp
next
  case (2 p)
  then show ?case by (simp add: split_on_no_sep)
next
  case (3 p q ps)
  then have "split_on c (join_with [c] (q # ps)) = q # ps" by simp
  moreover have "split_on c p = [p]" using 3 by (simp add: split_on_no_sep)
  ultimately show ?case by (simp add: split_on_append)
qed

lemma hd_join: "ls \<noteq> [] \<Longrightarrow> hd ls \<noteq> [] \<Longrightarrow> hd (join_with sep ls) = hd (hd ls)"
  by (induction sep ls rule: join_with.induct) auto

lemma join_last_nonempty: "ls \<noteq> [] \<Longrightarrow> last ls \<noteq> [] \<Longrightarrow> join_with sep ls \<noteq> []"
  by (induction sep ls rule: join_with.induct) auto

lemma last_join:
  "ls \<noteq> [] \<Longrightarrow> last ls \<noteq> [] \<Longrightarrow> last (join_with sep ls) = last (last ls)"
proof (induction sep ls rule: join_with.induct)
  case (3 sep p q ps)
  then have "join_with sep (q # ps) \<noteq> []" by (intro join_last_nonempty) auto
  with 3 show ?case by simp
qed auto

lemma join_nonempty: "ls \<noteq> [] \<Longrightarrow> hd ls \<noteq> [] \<Longrightarrow> join_with sep ls \<noteq> []"
  by (induction sep ls rule: join_with.induct) auto

lemma trim_line_feed:
  assumes "X \<noteq> []" and "\<not> is_space (hd X)" and "\<not> is_space (last X)"
  shows "trim (X @ [CHR 0x0A]) = X"
proof -
  obtain x xs where X: "X = x # xs" using assms(1) by (cases X) auto
  have a: "dropWhile is_space (X @ [CHR 0x0A]) = X @ [CHR 0x0A]"
    using assms(2) X by simp
  obtain y ys where Y: "rev X = y # ys" using assms(1) by (cases "rev X") auto
  have "hd (rev X) = last X" using assms(1) by (simp add: hd_rev)
  then have "\<not> is_space y" using assms(3) Y by simp
  then have b: "dropWhile is_space (rev X) = rev X" by (simp add: Y)
  have sp: "is_space CHR 0x0A" by (simp add: is_space_def)
  show ?thesis
    unfolding trim_def a using sp b by simp
qed

lemma lines_of_output:
  assumes "\<forall>l\<in>set ls. CHR 0x0A \<notin> set l \<and> l \<noteq> [] \<and> \<not> is_space (hd l) \<and> \<not> is_space (last l)"
  shows "lines_of (concat (map (\<lambda>l. l @ nl) ls)) = ls"
proof (cases "ls = []")
  case True
  then show ?thesis by (simp add: lines_of_def trim_def)
next
  case False
  let ?X = "join_with [CHR 0x0A] ls"
  have h: "hd ls \<in> set ls" "last ls \<in> set ls" using False by simp_all
  have hne: "hd ls \<noteq> []" and lne: "last ls \<noteq> []" using assms h by blast+
  have X: "?X \<noteq> []" using False hne by (rule join_nonempty)
  have hx: "\<not> is_space (hd ?X)" using assms h(1) hd_join[OF False hne] by simp
  have lx: "\<not> is_space (last ?X)" using assms h(2) last_join[OF False lne] by simp
  have "concat (map (\<lambda>l. l @ nl) ls) = ?X @ [CHR 0x0A]"
    using concat_lines[OF False, of "CHR 0x0A"] by (simp add: nl_def)
  then have "trim (concat (map (\<lambda>l. l @ nl) ls)) = ?X"
    using trim_line_feed[OF X hx lx] by simp
  moreover have "split_on CHR 0x0A ?X = ls"
    using False assms by (intro split_join) auto
  moreover have "filter (\<lambda>l. l \<noteq> []) ls = ls" using assms by (simp add: filter_id_conv)
  ultimately show ?thesis by (simp add: lines_of_def)
qed

lemma stat_line_shape:
  assumes "CHR 0x0A \<notin> set (e_name e)"
  shows "CHR 0x0A \<notin> set (stat_line bsd e) \<and> stat_line bsd e \<noteq> []
         \<and> \<not> is_space (hd (stat_line bsd e)) \<and> \<not> is_space (last (stat_line bsd e))"
proof -
  have l: "last (stat_line bsd e) = last (show_nat (e_mtime e))"
    using show_nat_nonempty[of "e_mtime e"] by (simp add: stat_line_def)
  have "last (show_nat (e_mtime e)) \<in> set (show_nat (e_mtime e))"
    using show_nat_nonempty by (rule last_in_set)
  then have "is_digit (last (show_nat (e_mtime e)))" using show_nat_digits by blast
  then have ls: "\<not> is_space (last (stat_line bsd e))" using is_digit_props l by simp
  have h: "hd (stat_line bsd e) = hd (type_word bsd (e_isDir e))"
    using type_word_chars[of bsd "e_isDir e"] by (simp add: stat_line_def)
  show ?thesis
    using assms ls h type_word_chars[of bsd "e_isDir e"] show_nat_no_bar
    by (simp add: stat_line_def)
qed

lemma lines_of_remote_output:
  assumes "\<forall>e\<in>set es. CHR 0x0A \<notin> set (e_name e)"
  shows "lines_of (remote_output bsd es) = map (stat_line bsd) es"
proof -
  have "remote_output bsd es = concat (map (\<lambda>l. l @ nl) (map (stat_line bsd) es))"
    by (simp add: remote_output_def comp_def)
  moreover have "lines_of (concat (map (\<lambda>l. l @ nl) (map (stat_line bsd) es))) = map (stat_line bsd) es"
    using assms stat_line_shape by (intro lines_of_output) auto
  ultimately show ?thesis by simp
qed

lemma ssh_file_items_remote:
  assumes "\<forall>e\<in>set es. CHR 0x0A \<notin> set (e_name e) \<and> CHR ''|'' \<notin> set (e_name e)
                       \<and> e_mtime e \<le> 8640000000000"
  shows "ssh_file_items rt requestedPath (remote_output bsd es)
           = Inr (js_sort (compare_items rt) (map (ssh_item requestedPath) es))"
proof -
  have l: "lines_of (remote_output bsd es) = map (stat_line bsd) es"
    using assms by (intro lines_of_remote_output) auto
  have m: "map (ssh_item_of_line requestedPath) (map (stat_line bsd) es)
          = map Inr (map (ssh_item requestedPath) es)"
    using assms by (simp add: ssh_item_of_stat_line)
  show ?thesis
    unfolding ssh_file_items_def l m collect_Inr by simp
qed

subsection \<open>The two listings\<close>

lemma compare_ssh_items:
  "(\<lambda>a b. compare_items rt (ssh_item rp a) (ssh_item rp b)) = compare_entries rt"
  by (intro ext) (simp add: compare_items_def compare_entries_def ssh_item_def)

lemma compare_local_items:
  "(\<lambda>a b. compare_items rt (local_item R cwd sp a) (local_item R cwd sp b)) = compare_entries rt"
  by (intro ext) (simp add: compare_items_def compare_entries_def local_item_def)

lemma view_items: "view (ssh_item rp e) = view (local_item R cwd sp e)"
  by (simp add: view_def ssh_item_def local_item_def getFileIcon_def)

lemma compare_entries_le:
  "compare_entries rt a b \<le> 0 \<longleftrightarrow>
     (e_isDir a \<or> \<not> e_isDir b) \<and> (e_isDir a = e_isDir b \<longrightarrow> localeCompare rt (e_name a) (e_name b) \<le> 0)"
  by (auto simp: compare_entries_def)

lemma entries_total:
  assumes "cmp_total_on (localeCompare rt) (e_name ` S)"
  shows "cmp_total_on (compare_entries rt) S"
  unfolding cmp_total_on_def
proof (intro ballI)
  fix a b assume "a \<in> S" "b \<in> S"
  then have "localeCompare rt (e_name a) (e_name b) \<le> 0 \<or> localeCompare rt (e_name b) (e_name a) \<le> 0"
    using assms unfolding cmp_total_on_def by blast
  then show "compare_entries rt a b \<le> 0 \<or> compare_entries rt b a \<le> 0"
    by (auto simp: compare_entries_le)
qed

lemma entries_trans:
  assumes "cmp_trans_on (localeCompare rt) (e_name ` S)"
  shows "cmp_trans_on (compare_entries rt) S"
  unfolding cmp_trans_on_def
proof (intro ballI impI)
  fix a b c assume m: "a \<in> S" "b \<in> S" "c \<in> S"
    and h: "compare_entries rt a b \<le> 0 \<and> compare_entries rt b c \<le> 0"
  have t: "localeCompare rt (e_name a) (e_name b) \<le> 0 \<Longrightarrow> localeCompare rt (e_name b) (e_name c) \<le> 0
      \<Longrightarrow> localeCompare rt (e_name a) (e_name c) \<le> 0"
    using assms m unfolding cmp_trans_on_def by blast
  from h show "compare_entries rt a c \<le> 0"
    unfolding compare_entries_le using t by (cases "e_isDir a"; cases "e_isDir b"; cases "e_isDir c") auto
qed

lemma entries_antisym:
  assumes "cmp_antisym_on (localeCompare rt) (e_name ` S)" and "inj_on e_name S"
  shows "cmp_antisym_on (compare_entries rt) S"
  unfolding cmp_antisym_on_def
proof (intro ballI impI)
  fix a b assume m: "a \<in> S" "b \<in> S"
    and h: "compare_entries rt a b \<le> 0 \<and> compare_entries rt b a \<le> 0"
  then have "localeCompare rt (e_name a) (e_name b) \<le> 0 \<and> localeCompare rt (e_name b) (e_name a) \<le> 0"
    unfolding compare_entries_le by auto
  then have "e_name a = e_name b"
    using assms(1) m unfolding cmp_antisym_on_def by blast
  then show "a = b" using assms(2) m by (simp add: inj_on_def)
qed

lemma local_file_items_entries:
  assumes "\<forall>e\<in>set ds. fs_stat fs (path_join safePath (e_name e)) = Some (stats_of e)"
  shows "local_file_items rt fs ROOT_DIR cwd safePath showHidden (map dirent_of ds)
           = js_sort (compare_items rt) (map (local_item ROOT_DIR cwd safePath) (filter (visible showHidden) ds))"
proof -
  have vis: "visible showHidden = (\<lambda>e. showHidden \<or> \<not> prefix ''.'' (e_name e))"
    by (intro ext) (simp add: visible_def)
  have f: "filter (\<lambda>entry. showHidden \<or> \<not> prefix ''.'' (de_name entry)) (map dirent_of ds)
             = map dirent_of (filter (visible showHidden) ds)"
    by (simp add: filter_map comp_def vis dirent_of_def)
  have st: "\<forall>e\<in>set (filter (visible showHidden) ds).
          fs_stat fs (path_join safePath (e_name e)) = Some (stats_of e)"
    using assms by simp
  show ?thesis
    unfolding local_file_items_def f map_map
    apply (rule arg_cong[where f = "js_sort (compare_items rt)"])
    apply (subst map_eq_conv)
    using st by (simp add: Let_def dirent_of_def local_item_def stats_of_def)
qed

lemma listings_agree:
  assumes names: "\<forall>e\<in>set ds. CHR 0x0A \<notin> set (e_name e) \<and> CHR ''|'' \<notin> set (e_name e)
                       \<and> e_mtime e \<le> 8640000000000"
    and dist: "distinct (map e_name ds)"
    and perm: "mset es = mset (filter (visible showHidden) ds)"
    and stat: "\<forall>e\<in>set ds. fs_stat fs (path_join safePath (e_name e)) = Some (stats_of e)"
    and coll: "collation_orders rt (e_name ` set ds)"
  shows "\<exists>items. ssh_file_items rt requestedPath (remote_output bsd es) = Inr items
           \<and> map view items
               = map view (local_file_items rt fs ROOT_DIR cwd safePath showHidden (map dirent_of ds))
           \<and> sorted_wrt (listing_order rt) items"
proof -
  let ?V = "filter (visible showHidden) ds"
  let ?c = "compare_entries rt"
  have sub: "set es \<subseteq> set ds"
    using perm by (metis set_mset_mset set_filter mem_Collect_eq subsetI)
  have tot: "cmp_total_on ?c (set ds)" using coll by (simp add: collation_orders_def entries_total)
  have tr: "cmp_trans_on ?c (set ds)" using coll by (simp add: collation_orders_def entries_trans)
  have inj: "inj_on e_name (set ds)" using dist by (simp add: distinct_map)
  have anti: "cmp_antisym_on ?c (set ds)" using coll inj by (simp add: collation_orders_def entries_antisym)
  have n: "\<forall>e\<in>set es. CHR 0x0A \<notin> set (e_name e) \<and> CHR ''|'' \<notin> set (e_name e)
                       \<and> e_mtime e \<le> 8640000000000"
    using names sub by blast
  have s: "ssh_file_items rt requestedPath (remote_output bsd es)
             = Inr (map (ssh_item requestedPath) (js_sort ?c es))"
    using ssh_file_items_remote[OF n] by (simp add: js_sort_map compare_ssh_items)
  have l: "local_file_items rt fs ROOT_DIR cwd safePath showHidden (map dirent_of ds)
             = map (local_item ROOT_DIR cwd safePath) (js_sort ?c ?V)"
    using local_file_items_entries[OF stat] by (simp add: js_sort_map compare_local_items)
  have e: "js_sort ?c es = js_sort ?c ?V"
    using tot tr anti sub perm by (rule js_sort_perm)
  have v: "map view (map (ssh_item requestedPath) (js_sort ?c es))
             = map view (map (local_item ROOT_DIR cwd safePath) (js_sort ?c ?V))"
    by (simp add: e view_items)
  have "sorted_wrt (\<lambda>a b. ?c a b \<le> 0) (js_sort ?c es)"
    using tot tr sub by (rule js_sort_sorted)
  then have o: "sorted_wrt (listing_order rt) (map (ssh_item requestedPath) (js_sort ?c es))"
    by (simp add: sorted_wrt_map listing_order_def compare_entries_le ssh_item_def)
  show ?thesis using s l v o by simp
qed

end
